theory Spec2Isabelle
  imports Complex_Main "HOL-Library.AList"
begin

section \<open>The cross-frame message bus of the content script\<close>

text \<open>
  The development embeds the message bus of \<^verbatim>\<open>src/js/content.js\<close>
  (\<^verbatim>\<open>setupCrossDomainCommunication\<close>, \<^verbatim>\<open>setupFallbackCommunication\<close>) and the
  diagnostics collector of \<^verbatim>\<open>src/js/debugUtils.js\<close>.

  Conventions of the embedding.
  \<^item> JavaScript strings are \<open>string\<close>; an absent (\<^verbatim>\<open>undefined\<close>) property is \<open>None\<close>.
  \<^item> \<^verbatim>\<open>Date.now()\<close> and \<^verbatim>\<open>Math.random()\<close> are inputs: every call of a function of the
    bus takes the readings it makes as a \<open>clock\<close>. Times are milliseconds, an \<open>int\<close>.
  \<^item> The globals \<^verbatim>\<open>window.receivedMessageIds\<close>, \<^verbatim>\<open>window.sentMessageIds\<close>, ..., the
    closure variables of the fallback listener and the closure variables of the
    collector are the fields of one record \<open>bus\<close>, passed in and returned.
  \<^item> A plain object used as a dictionary is the map of its own properties, read and
    written with \<open>getProp\<close> and \<open>setProp\<close>, which account for the names every object
    inherits from \<^verbatim>\<open>Object.prototype\<close>.
  \<^item> What the bus does to the outside (\<^verbatim>\<open>postMessage\<close>, \<^verbatim>\<open>localStorage\<close>, calls of the
    page logic, calls of a caller's callback) is appended to the field \<open>trace\<close>.
  \<^item> \<^verbatim>\<open>setTimeout\<close> appends a task with its due time to the field \<open>timers\<close>.
  \<^item> The page logic (\<^verbatim>\<open>analyzeCurrentPage\<close>, \<^verbatim>\<open>updateStatusIndicator\<close>,
    \<^verbatim>\<open>checkForQuestions\<close>, the object \<^verbatim>\<open>state\<close>) is outside the bus: what a listener
    reads of it is an input (\<open>page\<close>), a call or an assignment is an effect, and a send
    that the page logic makes in turn is a further call of the send function.
  \<^item> An exception that leaves a function is the result \<open>Inl e\<close>, or \<open>Some e\<close> where the
    function returns nothing.
\<close>

subsection \<open>Strings\<close>

definition startsWith :: "string \<Rightarrow> string \<Rightarrow> bool" where
  "startsWith s p = (take (length p) s = p)"

definition endsWith :: "string \<Rightarrow> string \<Rightarrow> bool" where
  "endsWith s p = (length p \<le> length s \<and> drop (length s - length p) s = p)"

text \<open>\<^verbatim>\<open>s.includes(p)\<close>: \<open>p\<close> occurs in \<open>s\<close> as a contiguous substring.\<close>

fun str_includes :: "string \<Rightarrow> string \<Rightarrow> bool" where
  "str_includes [] p = (p = [])"
| "str_includes (c # cs) p = (startsWith (c # cs) p \<or> str_includes cs p)"

text \<open>Decimal rendering of a number in a template literal (\<^verbatim>\<open>`${Date.now()}`\<close>).\<close>

fun showNat :: "nat \<Rightarrow> string" where
  "showNat n = (if n < 10 then [char_of (48 + n)]
                else showNat (n div 10) @ [char_of (48 + n mod 10)])"

declare showNat.simps [simp del]

definition showInt :: "int \<Rightarrow> string" where
  "showInt i = (if i < 0 then CHR ''-'' # showNat (nat (- i)) else showNat (nat i))"

subsection \<open>Origin validator (\<^verbatim>\<open>isPearsonOrigin\<close>, content.js 1000-1023)\<close>

text \<open>
  Each entry of \<^verbatim>\<open>PEARSON_DOMAIN_PATTERNS\<close> is a regular expression
  \<^verbatim>\<open>/^https?:\/\/.*?\.?DOMAIN$/\<close> with the dots of DOMAIN escaped. The pattern is anchored
  at both ends, so \<^verbatim>\<open>test\<close> succeeds exactly when the string is \<^verbatim>\<open>http://\<close> or
  \<^verbatim>\<open>https://\<close>, then any characters that \<^verbatim>\<open>.\<close> matches (all but line terminators; the
  optional literal dot is one of them), then DOMAIN at the very end. The list holds the
  DOMAIN parts. An origin is ASCII text, so of the line terminators only LF and CR can
  occur in it.
\<close>

definition PEARSON_DOMAIN_PATTERNS :: "string list" where
  "PEARSON_DOMAIN_PATTERNS =
     [''pearson.com'', ''pearsoncmg.com'', ''pearsonmylabandmastering.com'']"

definition isLineTerminator :: "char \<Rightarrow> bool" where
  "isLineTerminator c = (c = CHR 0x0A \<or> c = CHR 0x0D)"

definition matchAfterScheme :: "string \<Rightarrow> string \<Rightarrow> string \<Rightarrow> bool" where
  "matchAfterScheme scheme dn s =
     (startsWith s scheme \<and>
      (let r = drop (length scheme) s
       in endsWith r dn \<and>
          list_all (\<lambda>c. \<not> isLineTerminator c) (take (length r - length dn) r)))"

definition patternTest :: "string \<Rightarrow> string \<Rightarrow> bool" where
  "patternTest dn s =
     (matchAfterScheme ''http://'' dn s \<or> matchAfterScheme ''https://'' dn s)"

text \<open>\<open>windowOrigin\<close> is \<^verbatim>\<open>window.location.origin\<close> of the receiving context.\<close>

definition isPearsonOrigin :: "string \<Rightarrow> string \<Rightarrow> bool" where
  "isPearsonOrigin windowOrigin origin =
     (if str_includes origin ''mylab.pearson.com'' \<or>
         str_includes origin ''mylabmastering.pearson.com'' \<or>
         origin = windowOrigin
      then True
      else list_ex (\<lambda>dn. patternTest dn origin) PEARSON_DOMAIN_PATTERNS)"

text \<open>
  The validator as the specification words it: the origin is the context's own, or its
  host is one of the listed domains or ends with a dot followed by one of them.
\<close>

definition hostIsOrUnder :: "string \<Rightarrow> string \<Rightarrow> bool" where
  "hostIsOrUnder dn host = (host = dn \<or> endsWith host (CHR ''.'' # dn))"

definition hostOf :: "string \<Rightarrow> string option" where
  "hostOf origin =
     (if startsWith origin ''https://'' then Some (drop 8 origin)
      else if startsWith origin ''http://'' then Some (drop 7 origin)
      else None)"

definition allowListed :: "string \<Rightarrow> bool" where
  "allowListed origin =
     (case hostOf origin of
        None \<Rightarrow> False
      | Some host \<Rightarrow> list_ex (\<lambda>dn. hostIsOrUnder dn host) PEARSON_DOMAIN_PATTERNS)"

definition spec_isTrusted :: "string \<Rightarrow> string \<Rightarrow> bool" where
  "spec_isTrusted windowOrigin origin = (origin = windowOrigin \<or> allowListed origin)"


subsection \<open>Plain objects as dictionaries\<close>

text \<open>
  The bus and the collector keep their tables in plain objects (\<^verbatim>\<open>{}\<close>) indexed by
  strings that come from messages. Such an object answers a name it does not own with
  what \<^verbatim>\<open>Object.prototype\<close> holds under it: a function for \<^verbatim>\<open>constructor\<close>,
  \<^verbatim>\<open>toString\<close>, ..., and the prototype itself for \<^verbatim>\<open>__proto__\<close>. All of these are
  truthy and none is a number. An assignment to \<^verbatim>\<open>__proto__\<close> of a number or a string
  is ignored; any other name becomes an own property. \<open>m\<close> is the map of own
  properties.
\<close>

definition objectPrototypeNames :: "string list" where
  "objectPrototypeNames =
     [''constructor'', ''__defineGetter__'', ''__defineSetter__'', ''hasOwnProperty'',
      ''__lookupGetter__'', ''__lookupSetter__'', ''isPrototypeOf'',
      ''propertyIsEnumerable'', ''toString'', ''valueOf'', ''__proto__'',
      ''toLocaleString'']"

datatype 'v slot = Undefined | Inherited | Own 'v

definition getProp :: "(string \<rightharpoonup> 'v) \<Rightarrow> string \<Rightarrow> 'v slot" where
  "getProp m k =
     (case m k of
        Some v \<Rightarrow> Own v
      | None \<Rightarrow> if k \<in> set objectPrototypeNames then Inherited else Undefined)"

definition setProp :: "string \<Rightarrow> 'v \<Rightarrow> (string \<rightharpoonup> 'v) \<Rightarrow> (string \<rightharpoonup> 'v)" where
  "setProp k v m = (if k = ''__proto__'' then m else m(k \<mapsto> v))"

text \<open>\<^verbatim>\<open>(now - (m[k] || 0)) < limit\<close>: an inherited value, a function or an object, is
  truthy, the difference is \<^verbatim>\<open>NaN\<close> and the comparison is false.\<close>

definition elapsedLess :: "int \<Rightarrow> int slot \<Rightarrow> int \<Rightarrow> bool" where
  "elapsedLess now p limit =
     (case p of
        Undefined \<Rightarrow> now - 0 < limit
      | Inherited \<Rightarrow> False
      | Own t \<Rightarrow> now - t < limit)"

subsection \<open>Messages, options and callbacks\<close>

text \<open>
  The object handed to \<^verbatim>\<open>sendCrossDomainMessage\<close> and the object a listener parses from
  the wire have the same shape. \<open>msgSource\<close> and \<open>msgFrom\<close> are the properties
  \<^verbatim>\<open>source\<close> and \<^verbatim>\<open>from\<close>; \<open>others\<close> holds any further property
  (\<^verbatim>\<open>discoveryPing\<close>, \<^verbatim>\<open>success\<close>), which the spread \<^verbatim>\<open>...data\<close> copies unchanged.
\<close>

record message =
  msgSource :: "string option"
  action :: "string option"
  enabled :: "bool option"
  hasQuestions :: "bool option"
  path :: "string list option"
  replyTo :: "string option"
  msgFrom :: "string option"
  timestamp :: "int option"
  messageId :: "string option"
  fallback :: bool
  others :: "(string \<times> string) list"

definition emptyMessage :: message where
  "emptyMessage = \<lparr>msgSource = None, action = None, enabled = None, hasQuestions = None,
     path = None, replyTo = None, msgFrom = None, timestamp = None, messageId = None,
     fallback = False, others = []\<rparr>"

text \<open>A caller's callback is a function of the reply. It is known by a name; calling it is
  the effect \<open>CallbackCalled\<close>, and \<open>cbThrows\<close> says for which replies the call ends in
  an exception.\<close>

record callback =
  cbName :: string
  cbThrows :: "message \<Rightarrow> bool"

record options =
  retry :: bool
  retryCount :: int
  retryDelay :: int
  callback :: "callback option"
  skipDuplicateCheck :: bool
  skipRateLimiting :: bool

definition defaultOptions :: options where
  "defaultOptions = \<lparr>retry = False, retryCount = 1, retryDelay = 500, callback = None,
     skipDuplicateCheck = False, skipRateLimiting = False\<rparr>"

datatype task =
    PingTimeout string
  | RetrySend message options
  | InitialPing
  | DelayedAnalyze bool
  | RemoveItem string

datatype effect =
    PostMessage message
  | SetItem string message
  | RemovedItem string
  | Dispatch message
  | AnalyzeCurrentPage
  | SetEnabled "bool option"
  | SetAnalyzing bool
  | UpdateStatusIndicator
  | CallbackCalled string message

datatype error = ReferenceError | TypeError

text \<open>\<^verbatim>\<open>xs.slice(-n)\<close> and \<^verbatim>\<open>if (xs.length > n) xs.shift()\<close>\<close>

definition keepLast :: "nat \<Rightarrow> 'a list \<Rightarrow> 'a list" where
  "keepLast n xs = drop (length xs - n) xs"

definition shiftOver :: "nat \<Rightarrow> 'a list \<Rightarrow> 'a list" where
  "shiftOver n xs = (if length xs > n then tl xs else xs)"

subsection \<open>Diagnostics collector (debugUtils.js)\<close>

text \<open>
  \<^verbatim>\<open>messageStats\<close> has the four categories of lines 10-18, each an object that maps an
  action to its entry: an association list of the own properties in insertion order, the
  order in which \<^verbatim>\<open>for ... in\<close> visits keys that are not numerals. An entry
  \<open>Entry count timestamps data\<close> is an object with these three properties; the objects
  under \<^verbatim>\<open>sent\<close>, \<^verbatim>\<open>received\<close> and \<^verbatim>\<open>throttled\<close> are all of this kind, being created
  by lines 32-36 only. \<open>Blank\<close> is an object without a \<^verbatim>\<open>timestamps\<close> array: the
  literals \<^verbatim>\<open>sent: {}\<close> and \<^verbatim>\<open>received: {}\<close> nested under the category
  \<^verbatim>\<open>localStorage\<close> (lines 14-17), which the loops over a category meet as if they were
  actions.

  \<open>protoCount\<close> records that \<^verbatim>\<open>Object.prototype\<close> has been given a property
  \<^verbatim>\<open>count\<close> (with the value \<^verbatim>\<open>NaN\<close>) by line 40, see \<open>recordMessageStat\<close>. The value is
  falsy and compares false with every number, so a read of that name behaves as a read
  of an absent property wherever the bus or the collector reads a dictionary; but every
  \<^verbatim>\<open>for ... in\<close> loop visits the name from then on.
\<close>

datatype dataPoint = PointObject "string option" "string list option" | PointMessage string

datatype entry = Entry nat "int list" "(int \<times> dataPoint) list"

datatype statEntry = Blank | Full entry

text \<open>The value a counting loop keeps for a name: a number, or the text that
  \<^verbatim>\<open>+ 1\<close> makes of an inherited function.\<close>

datatype tally = Num nat | Junk

record circularPath =
  cpTimestamp :: int
  cpPath :: "string list"
  cpCounts :: "(string \<times> tally) list"

record collector =
  stSent :: "(string \<times> entry) list"
  stReceived :: "(string \<times> entry) list"
  stThrottled :: "(string \<times> entry) list"
  stLocalStorage :: "(string \<times> statEntry) list"
  circularPaths :: "circularPath list"
  protoCount :: bool

definition initialStats :: collector where
  "initialStats =
     \<lparr>stSent = [], stReceived = [], stThrottled = [],
      stLocalStorage = [(''sent'', Blank), (''received'', Blank)],
      circularPaths = [], protoCount = False\<rparr>"

text \<open>The category strings that \<^verbatim>\<open>debugLog\<close> can pass (content.js 1044-1067). The last
  two are not keys of \<^verbatim>\<open>messageStats\<close>.\<close>

datatype category = Sent | Received | Throttled | LocalStorageSent | LocalStorageReceived

definition bumpEntry ::
  "int \<Rightarrow> dataPoint option \<Rightarrow> nat \<Rightarrow> int list \<Rightarrow> (int \<times> dataPoint) list \<Rightarrow> entry" where
  "bumpEntry now dat c ts ds =
     Entry (c + 1) (shiftOver 50 (ts @ [now]))
       (case dat of None \<Rightarrow> ds | Some x \<Rightarrow> shiftOver 20 (ds @ [(now, x)]))"

text \<open>
  Lines 31-59 on the object \<open>acts\<close> of one category. \<open>dat = None\<close> is a data object
  without keys. A name that \<open>acts\<close> does not own but inherits is truthy, so no entry is
  created (line 31); line 40 then sets \<^verbatim>\<open>count\<close> on the inherited value, which for the
  name \<^verbatim>\<open>__proto__\<close> is \<^verbatim>\<open>Object.prototype\<close> itself; line 41 raises a TypeError, the
  inherited value having no \<^verbatim>\<open>timestamps\<close>. The result is the exception, if any, the
  object and whether the prototype was written.
\<close>

definition recordInto ::
  "int \<Rightarrow> string \<Rightarrow> dataPoint option \<Rightarrow> (string \<times> entry) list \<Rightarrow>
   error option \<times> (string \<times> entry) list \<times> bool" where
  "recordInto now act dat acts =
     (case map_of acts act of
        Some (Entry c ts ds) \<Rightarrow> (None, AList.update act (bumpEntry now dat c ts ds) acts, False)
      | None \<Rightarrow>
          if act \<in> set objectPrototypeNames
          then (Some TypeError, acts, act = ''__proto__'')
          else (None, AList.update act (bumpEntry now dat 0 [] []) acts, False))"

text \<open>For a category that is not a key of \<^verbatim>\<open>messageStats\<close>, line 31 reads a property of
  \<^verbatim>\<open>undefined\<close>: a TypeError.\<close>

definition recordMessageStat ::
  "int \<Rightarrow> category \<Rightarrow> string \<Rightarrow> dataPoint option \<Rightarrow> collector \<Rightarrow> error option \<times> collector" where
  "recordMessageStat now cat act dat c =
     (case cat of
        Sent \<Rightarrow>
          (case recordInto now act dat (stSent c) of
             (e, acts, w) \<Rightarrow> (e, c\<lparr>stSent := acts, protoCount := protoCount c \<or> w\<rparr>))
      | Received \<Rightarrow>
          (case recordInto now act dat (stReceived c) of
             (e, acts, w) \<Rightarrow> (e, c\<lparr>stReceived := acts, protoCount := protoCount c \<or> w\<rparr>))
      | Throttled \<Rightarrow>
          (case recordInto now act dat (stThrottled c) of
             (e, acts, w) \<Rightarrow> (e, c\<lparr>stThrottled := acts, protoCount := protoCount c \<or> w\<rparr>))
      | LocalStorageSent \<Rightarrow> (Some TypeError, c)
      | LocalStorageReceived \<Rightarrow> (Some TypeError, c))"

text \<open>
  The counting loop of lines 71-74 (the same loop as content.js 1174-1177):
  \<^verbatim>\<open>counts[domain] = (counts[domain] || 0) + 1\<close>. For an inherited name the old value is
  a function, the sum is a text, and the text stays a text when 1 is added again; the
  assignment to \<^verbatim>\<open>__proto__\<close> is ignored.
\<close>

definition countStep :: "(string \<times> tally) list \<Rightarrow> string \<Rightarrow> (string \<times> tally) list" where
  "countStep counts domain =
     (case map_of counts domain of
        Some (Num n) \<Rightarrow> AList.update domain (Num (n + 1)) counts
      | Some Junk \<Rightarrow> counts
      | None \<Rightarrow>
          if domain = ''__proto__'' then counts
          else if domain \<in> set objectPrototypeNames then AList.update domain Junk counts
          else AList.update domain (Num 1) counts)"

definition countDomains :: "string list \<Rightarrow> (string \<times> tally) list" where
  "countDomains p = foldl countStep [] p"

text \<open>\<^verbatim>\<open>counts[domain] >= 3\<close>: false for an absent property, for an inherited value and
  for a text that is not a numeral.\<close>

definition atLeast3 :: "tally option \<Rightarrow> bool" where
  "atLeast3 v = (case v of Some (Num n) \<Rightarrow> n \<ge> 3 | _ \<Rightarrow> False)"

definition detectMessageLoop ::
  "int \<Rightarrow> string list option \<Rightarrow> collector \<Rightarrow> bool \<times> collector" where
  "detectMessageLoop now p c =
     (case p of
        None \<Rightarrow> (False, c)
      | Some pth \<Rightarrow>
          if length pth < 3 then (False, c)
          else
            let counts = countDomains pth
            in if list_ex (\<lambda>dc. atLeast3 (Some (snd dc))) counts
               then (True, c\<lparr>circularPaths := shiftOver 20
                             (circularPaths c @
                                [\<lparr>cpTimestamp = now, cpPath = pth, cpCounts = counts\<rparr>])\<rparr>)
               else (False, c))"

record report =
  summary :: "(string \<times> nat) list"
  byAction :: "(string \<times> (string \<times> nat) list) list"
  messageRate :: "(string \<times> (string \<times> rat) list) list"
  loops :: nat
  lastCircularPath :: "circularPath option"

definition subObject :: "(string \<times> (string \<times> 'v) list) list \<Rightarrow> string \<Rightarrow> (string \<times> 'v) list" where
  "subObject m k = (case map_of m k of None \<Rightarrow> [] | Some x \<Rightarrow> x)"

definition numOr0 :: "(string \<times> nat) list \<Rightarrow> string \<Rightarrow> nat" where
  "numOr0 m k = (case map_of m k of None \<Rightarrow> 0 | Some x \<Rightarrow> x)"

text \<open>A loop whose body may throw: the first error ends it.\<close>

fun foldE :: "('b \<Rightarrow> 'a \<Rightarrow> error + 'b) \<Rightarrow> 'a list \<Rightarrow> 'b \<Rightarrow> error + 'b" where
  "foldE f [] r = Inr r"
| "foldE f (x # xs) r = (case f r x of Inl e \<Rightarrow> Inl e | Inr r' \<Rightarrow> foldE f xs r')"

text \<open>The body of the inner loop (lines 117-133). On a blank entry
  \<^verbatim>\<open>timestamps.filter\<close> raises a TypeError. The rate is the number of retained
  timestamps of the last 5000 ms divided by 5, a rational number here.\<close>

definition reportAction :: "int \<Rightarrow> string \<Rightarrow> report \<Rightarrow> string \<times> statEntry \<Rightarrow> error + report" where
  "reportAction now category r ae =
     (case snd ae of
        Blank \<Rightarrow> Inl TypeError
      | Full (Entry c ts ds) \<Rightarrow>
          let act = fst ae;
              recentMessages = filter (\<lambda>t. now - t < 5000) ts
          in Inr (r\<lparr>summary := AList.update category (numOr0 (summary r) category + c) (summary r),
                    byAction := AList.update act
                                  (AList.update category c (subObject (byAction r) act))
                                  (byAction r),
                    messageRate := AList.update act
                                     (AList.update category (of_nat (length recentMessages) / 5)
                                        (subObject (messageRate r) act))
                                     (messageRate r)\<rparr>))"

text \<open>The loop over one category (lines 114-134). When \<^verbatim>\<open>Object.prototype\<close> has the
  property \<^verbatim>\<open>count\<close>, the loop visits that name after the own ones unless the object
  owns it; the value found under it is \<^verbatim>\<open>NaN\<close>, and \<^verbatim>\<open>timestamps.filter\<close> raises a
  TypeError.\<close>

definition reportCategory ::
  "int \<Rightarrow> bool \<Rightarrow> report \<Rightarrow> string \<times> (string \<times> statEntry) list \<Rightarrow> error + report" where
  "reportCategory now polluted r ca =
     (case foldE (reportAction now (fst ca)) (snd ca)
             (r\<lparr>summary := AList.update (fst ca) 0 (summary r)\<rparr>) of
        Inl e \<Rightarrow> Inl e
      | Inr r' \<Rightarrow> if polluted \<and> map_of (snd ca) ''count'' = None then Inl TypeError else Inr r')"

definition fullEntries :: "(string \<times> entry) list \<Rightarrow> (string \<times> statEntry) list" where
  "fullEntries acts = map (\<lambda>ae. (fst ae, Full (snd ae))) acts"

definition categories :: "collector \<Rightarrow> (string \<times> (string \<times> statEntry) list) list" where
  "categories c =
     [(''sent'', fullEntries (stSent c)), (''received'', fullEntries (stReceived c)),
      (''throttled'', fullEntries (stThrottled c)), (''localStorage'', stLocalStorage c)]"

text \<open>Lines 102-138. With the property \<^verbatim>\<open>count\<close> on the prototype, the outer loop
  visits that name last, as a category without actions.\<close>

definition getMessageStatsReport :: "int \<Rightarrow> collector \<Rightarrow> error + report" where
  "getMessageStatsReport now c =
     (case foldE (reportCategory now (protoCount c)) (categories c)
             \<lparr>summary = [], byAction = [], messageRate = [], loops = length (circularPaths c),
              lastCircularPath =
                (if circularPaths c = [] then None else Some (last (circularPaths c)))\<rparr> of
        Inl e \<Rightarrow> Inl e
      | Inr r \<Rightarrow>
          Inr (if protoCount c then r\<lparr>summary := AList.update ''count'' 0 (summary r)\<rparr> else r))"

datatype finding =
    HighRate string string rat
  | MessageStorm string string
  | IncreaseThrottling string
  | ConsiderRateLimiting string
  | SentNoneReceived string
  | CheckProcessed string
  | ReceivingManyMore string
  | CheckDuplication string
  | CircularPaths nat
  | ReviewForwarding
  | MultipleLoops

record analysis =
  patterns :: "finding list"
  recommendations :: "finding list"
  urgentIssues :: "finding list"
  flowRating :: string

definition analyzeRate :: "string \<Rightarrow> analysis \<Rightarrow> string \<times> rat \<Rightarrow> analysis" where
  "analyzeRate act a cr =
     (let category = fst cr; rate = snd cr
      in if rate > 5 then
           let a1 = a\<lparr>patterns := patterns a @ [HighRate act category rate]\<rparr>
           in if rate > 10
              then a1\<lparr>flowRating := ''problematic'',
                      urgentIssues := urgentIssues a1 @ [MessageStorm act category],
                      recommendations := recommendations a1 @ [IncreaseThrottling act]\<rparr>
              else a1\<lparr>flowRating := ''concerning'',
                      recommendations := recommendations a1 @ [ConsiderRateLimiting act]\<rparr>
         else a)"

definition analyzeRates :: "analysis \<Rightarrow> string \<times> (string \<times> rat) list \<Rightarrow> analysis" where
  "analyzeRates a ar = foldl (analyzeRate (fst ar)) a (snd ar)"

definition analyzeBalance :: "analysis \<Rightarrow> string \<times> (string \<times> nat) list \<Rightarrow> analysis" where
  "analyzeBalance a ac =
     (let act = fst ac;
          nSent = numOr0 (snd ac) ''sent'';
          nReceived = numOr0 (snd ac) ''received'';
          a1 = (if nSent > 0 \<and> nReceived = 0
                then a\<lparr>patterns := patterns a @ [SentNoneReceived act],
                       recommendations := recommendations a @ [CheckProcessed act]\<rparr>
                else a)
      in if nReceived > nSent * 3 \<and> nReceived > 10
         then a1\<lparr>patterns := patterns a1 @ [ReceivingManyMore act],
                 recommendations := recommendations a1 @ [CheckDuplication act]\<rparr>
         else a1)"

definition analyzeLoops :: "circularPath list \<Rightarrow> analysis \<Rightarrow> analysis" where
  "analyzeLoops circ a =
     (if length circ > 0 then
        let a1 = a\<lparr>patterns := patterns a @ [CircularPaths (length circ)],
                   recommendations := recommendations a @ [ReviewForwarding]\<rparr>
        in if length circ > 5
           then a1\<lparr>flowRating := ''problematic'',
                   urgentIssues := urgentIssues a1 @ [MultipleLoops]\<rparr>
           else a1
      else a)"

definition analyzeMessageFlow :: "int \<Rightarrow> collector \<Rightarrow> error + analysis" where
  "analyzeMessageFlow now c =
     (case getMessageStatsReport now c of
        Inl e \<Rightarrow> Inl e
      | Inr stats \<Rightarrow>
          Inr (analyzeLoops (circularPaths c)
                 (foldl analyzeBalance
                    (foldl analyzeRates
                       \<lparr>patterns = [], recommendations = [], urgentIssues = [],
                        flowRating = ''normal''\<rparr>
                       (messageRate stats))
                    (byAction stats))))"

text \<open>\<^verbatim>\<open>resetDebugStats\<close> gives every entry it meets, the blank ones too, a zero count and
  empty arrays, and empties the list of circular paths. The file is not in strict mode:
  the assignments to a property of the \<^verbatim>\<open>NaN\<close> found under an inherited \<^verbatim>\<open>count\<close> do
  nothing.\<close>

definition resetEntries :: "(string \<times> 'a) list \<Rightarrow> (string \<times> entry) list" where
  "resetEntries acts = map (\<lambda>ae. (fst ae, Entry 0 [] [])) acts"

definition resetDebugStats :: "collector \<Rightarrow> collector" where
  "resetDebugStats c =
     c\<lparr>stSent := resetEntries (stSent c), stReceived := resetEntries (stReceived c),
       stThrottled := resetEntries (stThrottled c),
       stLocalStorage := fullEntries (resetEntries (stLocalStorage c)), circularPaths := []\<rparr>"

subsection \<open>The state of the bus\<close>

text \<open>The content fingerprint: \<^verbatim>\<open>JSON.stringify\<close> of the action and of the properties
  \<^verbatim>\<open>enabled\<close> and \<^verbatim>\<open>hasQuestions\<close> where defined. The triple stands for that text; two
  triples are equal exactly when the texts are. The text starts with a brace, so it is
  never a name that \<^verbatim>\<open>window.sentMessageHashes\<close> inherits.\<close>

type_synonym fingerprint = "string option \<times> bool option \<times> bool option"

record bus =
  receivedMessageIds :: "string list"
  sentMessageIds :: "string list"
  sentMessageHashes :: "fingerprint \<rightharpoonup> int"
  messageThrottleTimestamps :: "string \<rightharpoonup> int"
  pendingPings :: "string \<rightharpoonup> (int \<times> callback)"
  processedStorageMessages :: "string list"
  lastStorageMessageTimes :: "string \<rightharpoonup> int"
  storageLastSentTimes :: "string \<rightharpoonup> int"
  timers :: "(int \<times> task) list"
  trace :: "effect list"
  stats :: collector

text \<open>The readings one turn of the event loop makes of the clock and of the random
  source. \<open>recvTime\<close>: a listener's own \<^verbatim>\<open>Date.now()\<close> (lines 1189 and 1580);
  \<open>idTime\<close>, \<open>idRandom\<close>: line 1323, the random part a string of base-36 digits;
  \<open>tNow\<close>: line 1332; \<open>fbNow\<close>: line 1650; \<open>keyTime\<close>, \<open>keyRandom\<close>: line 1668;
  \<open>jitter\<close>: the random delay of lines 1242 and 1621; \<open>logTime\<close>: the readings of the
  collector (debugUtils.js 41, 51 and 81).\<close>

record clock =
  recvTime :: int
  idTime :: int
  idRandom :: string
  tNow :: int
  fbNow :: int
  keyTime :: int
  keyRandom :: string
  jitter :: int
  logTime :: int

text \<open>\<open>ctxOrigin\<close> is \<^verbatim>\<open>window.location.origin\<close>; \<open>currentDomain\<close> is the value of
  \<^verbatim>\<open>detectPearsonDomain()\<close> in this context, one of the eight identifiers of lines
  966-988; \<open>hasDebug\<close> says whether \<^verbatim>\<open>window.PearsonAiDebug\<close> is defined, that is
  whether debugUtils.js has been loaded into the context.\<close>

record frame =
  ctxOrigin :: string
  currentDomain :: string
  hasDebug :: bool

text \<open>What the listeners read of the page logic's own state when an event arrives:
  \<^verbatim>\<open>state.enabled\<close>, \<^verbatim>\<open>state.analyzing\<close> and the result of \<^verbatim>\<open>checkForQuestions()\<close>.\<close>

record page =
  stEnabled :: "bool option"
  stAnalyzing :: bool
  questionsPresent :: bool

subsection \<open>\<^verbatim>\<open>debugLog\<close> (content.js 1033-1106)\<close>

text \<open>
  \<^verbatim>\<open>debugLog\<close> writes to the console and, through \<^verbatim>\<open>chrome.runtime\<close> inside a \<^verbatim>\<open>try\<close>, to
  the background script; neither is part of the model. Before that it looks for words
  in the text of the message to tell whether a message of the bus is being logged, and
  if so calls the collector, where it is loaded. \<open>logData\<close> is the third argument:
  absent, a string, or an object with its properties \<^verbatim>\<open>action\<close> and \<^verbatim>\<open>path\<close>.
\<close>

datatype logData = NoData | StringData string | ObjectData "string option" "string list option"

text \<open>The regular expression \<^verbatim>\<open>/Rate limiting message '([^']+)'/\<close> of line 1056: the
  leftmost place where the literal text is followed by one or more characters other
  than an apostrophe and then an apostrophe; the result is that run of characters.\<close>

fun rateLimitingMatch :: "string \<Rightarrow> string option" where
  "rateLimitingMatch [] = None"
| "rateLimitingMatch (c # cs) =
     (if startsWith (c # cs) (''Rate limiting message '' @ [CHR 0x27])
      then (let rest = drop 23 (c # cs);
                run = takeWhile (\<lambda>x. x \<noteq> CHR 0x27) rest
            in if run \<noteq> [] \<and> startsWith (drop (length run) rest) [CHR 0x27]
               then Some run else rateLimitingMatch cs)
      else rateLimitingMatch cs)"

text \<open>\<^verbatim>\<open>data && data.action\<close> and \<^verbatim>\<open>typeof data === 'string'\<close>, each followed by the
  test of the action for truthiness in line 1075.\<close>

definition truthyStr :: "string option \<Rightarrow> bool" where
  "truthyStr x = (case x of None \<Rightarrow> False | Some v \<Rightarrow> v \<noteq> [])"

definition actionOfData :: "logData \<Rightarrow> string option" where
  "actionOfData dat =
     (case dat of ObjectData a p \<Rightarrow> (if truthyStr a then a else None) | _ \<Rightarrow> None)"

definition stringOfData :: "logData \<Rightarrow> string option" where
  "stringOfData dat =
     (case dat of StringData x \<Rightarrow> (if x \<noteq> [] then Some x else None) | _ \<Rightarrow> None)"

definition pathOfData :: "logData \<Rightarrow> string list option" where
  "pathOfData dat = (case dat of ObjectData a p \<Rightarrow> p | _ \<Rightarrow> None)"

text \<open>Lines 1039-1072: the category and the action, where both are found.\<close>

definition classify :: "string \<Rightarrow> logData \<Rightarrow> (category \<times> string) option" where
  "classify msg dat =
     (if str_includes msg ''Sending'' \<and> str_includes msg ''message''
      then map_option (Pair Sent) (actionOfData dat)
      else if str_includes msg ''Received'' \<and> str_includes msg ''message''
      then map_option (Pair Received) (actionOfData dat)
      else if str_includes msg ''Rate limiting''
      then map_option (Pair Throttled) (rateLimitingMatch msg)
      else if str_includes msg ''localStorage'' \<and> str_includes msg ''message''
      then (if str_includes msg ''Sent''
            then map_option (Pair LocalStorageSent) (stringOfData dat)
            else if str_includes msg ''Received''
            then map_option (Pair LocalStorageReceived) (stringOfData dat)
            else None)
      else None)"

text \<open>\<^verbatim>\<open>typeof data === 'object' ? data : { message }\<close> (line 1077)\<close>

definition pointOf :: "string \<Rightarrow> logData \<Rightarrow> dataPoint" where
  "pointOf msg dat = (case dat of ObjectData a p \<Rightarrow> PointObject a p | _ \<Rightarrow> PointMessage msg)"

definition debugLog :: "frame \<Rightarrow> clock \<Rightarrow> string \<Rightarrow> logData \<Rightarrow> bus \<Rightarrow> error option \<times> bus" where
  "debugLog cx ck msg dat s =
     (if \<not> hasDebug cx then (None, s)
      else
        case classify msg dat of
          None \<Rightarrow> (None, s)
        | Some (cat, act) \<Rightarrow>
            (case recordMessageStat (logTime ck) cat act (Some (pointOf msg dat)) (stats s) of
               (Some e, c) \<Rightarrow> (Some e, s\<lparr>stats := c\<rparr>)
             | (None, c) \<Rightarrow>
                 (None, s\<lparr>stats :=
                    (if cat = Sent \<and> pathOfData dat \<noteq> None
                     then snd (detectMessageLoop (logTime ck) (pathOfData dat) c)
                     else c)\<rparr>)))"

text \<open>
  The embedding of the bus writes out the calls of \<^verbatim>\<open>debugLog\<close> whose text can have a
  category and an action: lines 1141, 1154, 1289, 1337, 1364 and 1389. The texts of the
  other calls in \<^verbatim>\<open>setupCrossDomainCommunication\<close> are fixed words without the lower-case
  word \<^verbatim>\<open>message\<close> or without any of \<^verbatim>\<open>Sending\<close>, \<^verbatim>\<open>Received\<close>, \<^verbatim>\<open>Rate limiting\<close> and
  \<^verbatim>\<open>localStorage\<close>, joined at most with a number, a truth value, a generated message id
  (lines 1405, 1462: digits, lower-case letters and \<^verbatim>\<open>_\<close>), the identifier of the
  context (line 1181) or an origin (line 1114, which has no blank and comes without
  data); line 1129 passes a string, which has no action. For them \<^verbatim>\<open>debugLog\<close> finds no
  category or no action and only logs.
\<close>

text \<open>A value in a template literal: \<^verbatim>\<open>`${data.action}`\<close>\<close>

definition showOpt :: "string option \<Rightarrow> string" where
  "showOpt x = (case x of None \<Rightarrow> ''undefined'' | Some v \<Rightarrow> v)"

subsection \<open>Sending on the primary channel (content.js 1311-1483)\<close>

definition genMessageId :: "int \<Rightarrow> string \<Rightarrow> string" where
  "genMessageId t r = ''msg_'' @ showInt t @ ''_'' @ r"

text \<open>\<^verbatim>\<open>data.action || 'unknown'\<close>: the empty string is falsy.\<close>

definition actionKeyOf :: "message \<Rightarrow> string" where
  "actionKeyOf d =
     (case action d of None \<Rightarrow> ''unknown'' | Some a \<Rightarrow> (if a = [] then ''unknown'' else a))"

definition messageHash :: "message \<Rightarrow> fingerprint" where
  "messageHash d = (action d, enabled d, hasQuestions d)"

text \<open>Lines 1333-1336.\<close>

definition rateLimited :: "options \<Rightarrow> int \<Rightarrow> bus \<Rightarrow> string \<Rightarrow> bool" where
  "rateLimited opts now s actionKey =
     (\<not> skipRateLimiting opts \<and>
      elapsedLess now (getProp (messageThrottleTimestamps s) actionKey) 500)"

text \<open>Lines 1360-1367. The stored time is tested for truthiness first, so a stored 0 does
  not count.\<close>

definition duplicateSend :: "options \<Rightarrow> int \<Rightarrow> bus \<Rightarrow> fingerprint \<Rightarrow> bool" where
  "duplicateSend opts now s h =
     (\<not> skipDuplicateCheck opts \<and>
      (case sentMessageHashes s h of
         None \<Rightarrow> False
       | Some t \<Rightarrow> t \<noteq> 0 \<and> now - t < 2000))"

definition pushBounded :: "string \<Rightarrow> string list \<Rightarrow> string list" where
  "pushBounded mid ids =
     (let ids' = ids @ [mid] in if length ids' > 100 then keepLast 100 ids' else ids')"

definition cleanHashes :: "int \<Rightarrow> (fingerprint \<rightharpoonup> int) \<Rightarrow> (fingerprint \<rightharpoonup> int)" where
  "cleanHashes now hs =
     (\<lambda>h. case hs h of
             None \<Rightarrow> None
           | Some t \<Rightarrow> if now - t > 10000 then None else Some t)"

definition wireMessage :: "frame \<Rightarrow> int \<Rightarrow> string \<Rightarrow> message \<Rightarrow> message" where
  "wireMessage cx now mid d =
     d\<lparr>msgSource := Some ''pearson_ai_solver'',
       msgFrom := Some (currentDomain cx),
       timestamp := Some now,
       messageId := Some mid,
       path := Some (case path d of
                       Some p \<Rightarrow> p @ [currentDomain cx]
                     | None \<Rightarrow> [currentDomain cx])\<rparr>"

definition retryOptions :: "options \<Rightarrow> options" where
  "retryOptions opts =
     \<lparr>retry = True, retryCount = retryCount opts - 1, retryDelay = retryDelay opts,
      callback = callback opts, skipDuplicateCheck = True, skipRateLimiting = True\<rparr>"

definition rateLimitText :: "string \<Rightarrow> string" where
  "rateLimitText actionKey =
     ''Rate limiting message '' @ [CHR 0x27] @ actionKey @ [CHR 0x27] @ '', too many sent recently''"

definition duplicateText :: "message \<Rightarrow> string" where
  "duplicateText d = ''Skipping duplicate message: '' @ showOpt (action d)"

text \<open>Lines 1395-1476, after the log of line 1389 has returned. The key of the pending
  entry is the generated id, which starts with \<^verbatim>\<open>msg_\<close>. \<open>PostMessage m\<close> in the trace
  stands for the \<^verbatim>\<open>postMessage\<close> of \<open>m\<close> to the parent frame, if there is one, and to
  each child iframe; a target that throws is skipped by its own \<^verbatim>\<open>try\<close>, so the outer
  \<^verbatim>\<open>catch\<close> of line 1479 is not reached.\<close>

definition transmit :: "frame \<Rightarrow> int \<Rightarrow> string \<Rightarrow> message \<Rightarrow> options \<Rightarrow> bus \<Rightarrow> bus" where
  "transmit cx now mid d opts s =
     (let s3 = (case callback opts of
                  Some cb \<Rightarrow>
                    if action d = Some ''ping''
                    then s\<lparr>pendingPings := (pendingPings s)(mid \<mapsto> (now, cb)),
                           timers := timers s @ [(now + 5000, PingTimeout mid)]\<rparr>
                    else s
                | None \<Rightarrow> s);
          s4 = s3\<lparr>trace := trace s3 @ [PostMessage (wireMessage cx now mid d)]\<rparr>
      in if retry opts \<and> retryCount opts > 0
         then s4\<lparr>timers := timers s4 @
                   [(now + retryDelay opts, RetrySend d (retryOptions opts))]\<rparr>
         else s4)"

text \<open>
  \<open>sendPrimary\<close> is the function assigned at line 1311 (the \<^verbatim>\<open>originalSend\<close> of the
  fallback wrapper). The result is the returned message id (\<open>Inr None\<close> for \<^verbatim>\<open>null\<close>) or
  the exception that leaves the function, and the state after the call. None of the
  three calls of \<^verbatim>\<open>debugLog\<close> is inside a \<^verbatim>\<open>try\<close>.
\<close>

definition sendPrimary ::
  "frame \<Rightarrow> clock \<Rightarrow> message \<Rightarrow> options \<Rightarrow> bus \<Rightarrow> (error + string option) \<times> bus" where
  "sendPrimary cx ck d opts s =
     (let mid = genMessageId (idTime ck) (idRandom ck);
          actionKey = actionKeyOf d;
          now = tNow ck
      in if rateLimited opts now s actionKey
         then (case debugLog cx ck (rateLimitText actionKey) NoData s of
                 (Some e, s') \<Rightarrow> (Inl e, s')
               | (None, s') \<Rightarrow> (Inr None, s'))
         else
           let s1 = s\<lparr>messageThrottleTimestamps :=
                        setProp actionKey now (messageThrottleTimestamps s)\<rparr>;
               h = messageHash d
           in if duplicateSend opts now s1 h
              then (case debugLog cx ck (duplicateText d) NoData s1 of
                      (Some e, s') \<Rightarrow> (Inl e, s')
                    | (None, s') \<Rightarrow> (Inr None, s'))
              else
                let s2 = s1\<lparr>sentMessageHashes :=
                               cleanHashes now ((sentMessageHashes s1)(h \<mapsto> now)),
                            sentMessageIds := pushBounded mid (sentMessageIds s1)\<rparr>
                in case debugLog cx ck ''Sending cross-domain message:''
                          (ObjectData (action d) None) s2 of
                     (Some e, s') \<Rightarrow> (Inl e, s')
                   | (None, s') \<Rightarrow> (Inr (Some mid), transmit cx now mid d opts s'))"

subsection \<open>The fallback wrapper around the send function (content.js 1635-1694)\<close>

text \<open>
  \<^verbatim>\<open>debugLog\<close> is declared inside \<^verbatim>\<open>setupCrossDomainCommunication\<close> (line 1033).
  \<^verbatim>\<open>setupFallbackCommunication\<close> is a separate top-level function (line 1532), and no
  file of the repository declares a global of that name: there the call
  \<^verbatim>\<open>debugLog(...)\<close> raises a ReferenceError. The model writes every such call as
  \<open>fallbackDebugLog\<close> and keeps the code that follows it in the source.
\<close>

definition fallbackDebugLog :: "error + unit" where
  "fallbackDebugLog = Inl ReferenceError"

definition PREFIX :: string where
  "PREFIX = ''pearson_ai_solver_msg_''"

definition fallbackActions :: "string list" where
  "fallbackActions = [''analyzeQuestion'', ''updateStatus'', ''requestQuestionCheck'']"

definition storageMessage :: "frame \<Rightarrow> int \<Rightarrow> string \<Rightarrow> message \<Rightarrow> message" where
  "storageMessage cx now mid d =
     d\<lparr>msgSource := Some ''pearson_ai_solver'',
       msgFrom := Some (currentDomain cx),
       timestamp := Some now,
       fallback := True,
       messageId := Some mid\<rparr>"

text \<open>
  \<open>sendCrossDomainMessage\<close> is \<^verbatim>\<open>window.sendCrossDomainMessage\<close> as every caller sees it
  once both setup functions have run: the wrapper of line 1636. An exception of the
  wrapped function leaves the wrapper too. The second \<^verbatim>\<open>debugLog\<close> of the last branch is
  the one in the \<^verbatim>\<open>catch\<close> block (line 1690), reached by the exception of the first
  (line 1688).
\<close>

definition sendCrossDomainMessage ::
  "frame \<Rightarrow> clock \<Rightarrow> message \<Rightarrow> options \<Rightarrow> bus \<Rightarrow> (error + string option) \<times> bus" where
  "sendCrossDomainMessage cx ck d opts s =
     (let shouldUseFallback =
            (case action d of None \<Rightarrow> False | Some a \<Rightarrow> a \<in> set fallbackActions);
          r = sendPrimary cx ck d opts s;
          s1 = snd r
      in case fst r of
           Inl e \<Rightarrow> (Inl e, s1)
         | Inr None \<Rightarrow> (Inr None, s1)
         | Inr (Some mid) \<Rightarrow>
             if \<not> shouldUseFallback then (Inr (Some mid), s1)
             else
               let now = fbNow ck;
                   actionKey = actionKeyOf d
               in if elapsedLess now (getProp (storageLastSentTimes s1) actionKey) 2000
                  then (case fallbackDebugLog of
                          Inl e \<Rightarrow> (Inl e, s1)
                        | Inr _ \<Rightarrow> (Inr (Some mid), s1))
                  else
                    let s2 = s1\<lparr>storageLastSentTimes :=
                                   setProp actionKey now (storageLastSentTimes s1)\<rparr>;
                        key = PREFIX @ showInt (keyTime ck) @ ''_'' @ keyRandom ck;
                        s3 = s2\<lparr>trace := trace s2 @ [SetItem key (storageMessage cx now mid d)],
                                timers := timers s2 @ [(now + 1000, RemoveItem key)]\<rparr>
                    in case fallbackDebugLog of
                         Inr _ \<Rightarrow> (Inr (Some mid), s3)
                       | Inl e \<Rightarrow>
                           (case fallbackDebugLog of
                              Inl e' \<Rightarrow> (Inl e', s3)
                            | Inr _ \<Rightarrow> (Inr (Some mid), s3)))"

text \<open>The state when both setup functions have returned at time \<open>t0\<close>; the one timer is the
  initial ping of line 1519.\<close>

definition initialBus :: "int \<Rightarrow> bus" where
  "initialBus t0 =
     \<lparr>receivedMessageIds = [], sentMessageIds = [], sentMessageHashes = Map.empty,
      messageThrottleTimestamps = Map.empty, pendingPings = Map.empty,
      processedStorageMessages = [], lastStorageMessageTimes = Map.empty,
      storageLastSentTimes = Map.empty, timers = [(t0 + 1000, InitialPing)], trace = [],
      stats = initialStats\<rparr>"

subsection \<open>The \<^verbatim>\<open>message\<close> listener (content.js 1109-1295)\<close>

text \<open>The listeners return nothing; the verdict names the return statement taken.
  \<open>Raised e\<close>: an exception ended the turn before the \<^verbatim>\<open>switch\<close> (it is caught at line
  1292 or 1628 and logged). \<open>Handled\<close>: the \<^verbatim>\<open>switch\<close> was reached.\<close>

datatype verdict =
    UntrustedOrigin
  | Ignored
  | AlreadyProcessed
  | LoopBlocked
  | EchoIgnored
  | RateLimited
  | TooManyHops
  | Raised error
  | Handled

text \<open>\<open>evData = None\<close>: the event's data is a string that is not JSON, or is not an
  object.\<close>

record messageEvent =
  evOrigin :: string
  evData :: "message option"

definition emit :: "effect list \<Rightarrow> bus \<Rightarrow> bus" where
  "emit es s = s\<lparr>trace := trace s @ es\<rparr>"

text \<open>Lines 1171-1184: \<^verbatim>\<open>domainCounts[currentDomain] >= 3\<close> on the counts of the path.\<close>

definition loopBlocked :: "frame \<Rightarrow> message \<Rightarrow> bool" where
  "loopBlocked cx data =
     (case path data of
        None \<Rightarrow> False
      | Some p \<Rightarrow> length p > 5 \<and> atLeast3 (map_of (countDomains p) (currentDomain cx)))"

definition isEcho :: "frame \<Rightarrow> int \<Rightarrow> message \<Rightarrow> bus \<Rightarrow> bool" where
  "isEcho cx now data s =
     (msgFrom data = Some (currentDomain cx) \<and>
      (case timestamp data of None \<Rightarrow> False | Some t \<Rightarrow> t \<noteq> 0 \<and> now - t < 1000) \<and>
      truthyStr (messageId data) \<and>
      the (messageId data) \<in> set (sentMessageIds s))"

text \<open>
  The case \<^verbatim>\<open>pong\<close> (lines 1272-1286). \<^verbatim>\<open>window.pendingPings\<close> is a plain object: for a
  \<^verbatim>\<open>replyTo\<close> that it only inherits, the value found is truthy, has no \<^verbatim>\<open>callback\<close>, and
  the \<^verbatim>\<open>delete\<close> of a property that is not an own one does nothing. The callback is
  called before the entry is deleted: when the call throws, the exception goes to the
  \<^verbatim>\<open>catch\<close> of line 1292 and the entry stays.
\<close>

definition handlePong :: "message \<Rightarrow> bus \<Rightarrow> bus" where
  "handlePong data s =
     (case replyTo data of
        None \<Rightarrow> s
      | Some r \<Rightarrow>
          if r = [] then s
          else (case getProp (pendingPings s) r of
                  Undefined \<Rightarrow> s
                | Inherited \<Rightarrow> s
                | Own pending \<Rightarrow>
                    let s1 = emit [CallbackCalled (cbName (snd pending)) data] s
                    in if cbThrows (snd pending) data then s1
                       else s1\<lparr>pendingPings := (pendingPings s1)(r := None)\<rparr>))"

text \<open>The \<^verbatim>\<open>switch\<close> of line 1199. Reaching it is the effect \<open>Dispatch\<close>. An exception
  inside it, of a nested send or of the log of line 1289, is caught by the listener's own
  \<^verbatim>\<open>try\<close> (line 1292), so only the state it leaves is kept.\<close>

definition handleMessage :: "frame \<Rightarrow> page \<Rightarrow> clock \<Rightarrow> message \<Rightarrow> bus \<Rightarrow> bus" where
  "handleMessage cx pg ck data s =
     (let s0 = emit [Dispatch data] s
      in if action data = Some ''analyzeQuestion'' then
           (if \<not> stAnalyzing pg then emit [AnalyzeCurrentPage] s0 else s0)
         else if action data = Some ''updateStatus'' then
           (if stEnabled pg \<noteq> enabled data then
              let s1 = emit [SetEnabled (enabled data), UpdateStatusIndicator] s0
              in if msgFrom data \<noteq> Some (currentDomain cx) \<and>
                    (case path data of None \<Rightarrow> False | Some p \<Rightarrow> length p < 3)
                 then snd (sendCrossDomainMessage cx ck
                             (emptyMessage\<lparr>action := Some ''updateStatus'',
                                enabled := enabled data, path := path data\<rparr>)
                             defaultOptions s1)
                 else s1
            else s0)
         else if action data = Some ''requestQuestionCheck'' then
           (if questionsPresent pg \<and> stEnabled pg = Some True
            then s0\<lparr>timers := timers s0 @ [(recvTime ck + jitter ck, DelayedAnalyze True)]\<rparr>
            else s0)
         else if action data = Some ''questionAnalyzed'' then
           (if stAnalyzing pg then emit [SetAnalyzing False, UpdateStatusIndicator] s0 else s0)
         else if action data = Some ''ping'' then
           snd (sendCrossDomainMessage cx ck
                  (emptyMessage\<lparr>action := Some ''pong'', replyTo := messageId data,
                     hasQuestions := Some (questionsPresent pg)\<rparr>)
                  (defaultOptions\<lparr>skipDuplicateCheck := True, skipRateLimiting := True\<rparr>) s0)
         else if action data = Some ''pong'' then handlePong data s0
         else snd (debugLog cx ck (''Unknown message action: '' @ showOpt (action data))
                     NoData s0))"

text \<open>The listener. The log of line 1141 comes before the duplicate check; it and the
  log of line 1154 are inside the \<^verbatim>\<open>try\<close> of line 1119.\<close>

definition onMessage ::
  "frame \<Rightarrow> page \<Rightarrow> clock \<Rightarrow> messageEvent \<Rightarrow> bus \<Rightarrow> verdict \<times> bus" where
  "onMessage cx pg ck ev s =
     (if \<not> isPearsonOrigin (ctxOrigin cx) (evOrigin ev) then (UntrustedOrigin, s)
      else
        case evData ev of
          None \<Rightarrow> (Ignored, s)
        | Some data \<Rightarrow>
            if msgSource data \<noteq> Some ''pearson_ai_solver'' then (Ignored, s)
            else
              case debugLog cx ck ''Received message:'' (ObjectData (action data) None) s of
                (Some e, sl) \<Rightarrow> (Raised e, sl)
              | (None, sl) \<Rightarrow>
                  if truthyStr (messageId data) \<and>
                     the (messageId data) \<in> set (receivedMessageIds sl)
                  then (case debugLog cx ck
                               (''Ignoring already processed message: '' @ the (messageId data))
                               NoData sl of
                          (Some e, sd) \<Rightarrow> (Raised e, sd)
                        | (None, sd) \<Rightarrow> (AlreadyProcessed, sd))
                  else
                    let s1 = (if truthyStr (messageId data)
                              then sl\<lparr>receivedMessageIds :=
                                       pushBounded (the (messageId data)) (receivedMessageIds sl)\<rparr>
                              else sl)
                    in if loopBlocked cx data then (LoopBlocked, s1)
                       else if isEcho cx (recvTime ck) data s1 then (EchoIgnored, s1)
                       else (Handled, handleMessage cx pg ck data s1))"

subsection \<open>The \<^verbatim>\<open>storage\<close> listener (content.js 1546-1632)\<close>

text \<open>\<open>evNewValue = None\<close>: \<^verbatim>\<open>JSON.parse(event.newValue)\<close> throws (caught at line 1628)
  or yields \<^verbatim>\<open>null\<close>, as it does when an entry is removed.\<close>

record storageEvent =
  evKey :: "string option"
  evNewValue :: "message option"

text \<open>\<^verbatim>\<open>`${data.action}_${data.messageId || event.key}`\<close>\<close>

definition messageSignature :: "message \<Rightarrow> string \<Rightarrow> string" where
  "messageSignature data key =
     showOpt (action data) @ ''_'' @
     (if truthyStr (messageId data) then the (messageId data) else key)"

definition handleStorage :: "page \<Rightarrow> clock \<Rightarrow> message \<Rightarrow> bus \<Rightarrow> bus" where
  "handleStorage pg ck data s =
     (let s0 = emit [Dispatch data] s
      in if action data = Some ''analyzeQuestion'' then
           (if \<not> stAnalyzing pg then emit [AnalyzeCurrentPage] s0 else s0)
         else if action data = Some ''updateStatus'' then
           (if stEnabled pg \<noteq> enabled data
            then emit [SetEnabled (enabled data), UpdateStatusIndicator] s0
            else s0)
         else if action data = Some ''requestQuestionCheck'' then
           (if questionsPresent pg \<and> stEnabled pg = Some True \<and> \<not> stAnalyzing pg
            then s0\<lparr>timers := timers s0 @ [(recvTime ck + jitter ck, DelayedAnalyze False)]\<rparr>
            else s0)
         else s0)"

definition onStorage ::
  "frame \<Rightarrow> page \<Rightarrow> clock \<Rightarrow> storageEvent \<Rightarrow> bus \<Rightarrow> verdict \<times> bus" where
  "onStorage cx pg ck ev s =
     (case evKey ev of
        None \<Rightarrow> (Ignored, s)
      | Some key \<Rightarrow>
          if \<not> startsWith key PREFIX then (Ignored, s)
          else
            case evNewValue ev of
              None \<Rightarrow> (Ignored, s)
            | Some data \<Rightarrow>
                if msgSource data \<noteq> Some ''pearson_ai_solver'' then (Ignored, s)
                else
                  let sig = messageSignature data key
                  in if sig \<in> set (processedStorageMessages s)
                     then (case fallbackDebugLog of
                             Inl e \<Rightarrow> (Raised e, s)
                           | Inr _ \<Rightarrow> (AlreadyProcessed, s))
                     else
                       let s1 = s\<lparr>processedStorageMessages :=
                                    pushBounded sig (processedStorageMessages s)\<rparr>;
                           now = recvTime ck;
                           actionKey = actionKeyOf data
                       in if elapsedLess now (getProp (lastStorageMessageTimes s1) actionKey) 1000
                          then (case fallbackDebugLog of
                                  Inl e \<Rightarrow> (Raised e, s1)
                                | Inr _ \<Rightarrow> (RateLimited, s1))
                          else
                            let s2 = s1\<lparr>lastStorageMessageTimes :=
                                           setProp actionKey now (lastStorageMessageTimes s1)\<rparr>
                            in case fallbackDebugLog of
                                 Inl e \<Rightarrow> (Raised e, s2)
                               | Inr _ \<Rightarrow>
                                   if (case path data of None \<Rightarrow> False | Some p \<Rightarrow> length p > 3)
                                   then (case fallbackDebugLog of
                                           Inl e \<Rightarrow> (Raised e, s2)
                                         | Inr _ \<Rightarrow> (TooManyHops, s2))
                                   else (Handled, handleStorage pg ck data s2))"

subsection \<open>Timers\<close>

text \<open>
  The callbacks handed to \<^verbatim>\<open>setTimeout\<close>: the ping clean-up (line 1403), the retry
  (line 1460, its exceptions caught at line 1472), the initial ping (line 1519), the
  delayed analysis (lines 1238 and 1621; the flag says whether \<^verbatim>\<open>state.analyzing\<close> is
  tested when it runs) and the removal of a stored entry (line 1684). The clean-up reads
  \<^verbatim>\<open>window.pendingPings\<close> under a generated id, which is an own property or absent. The
  retry and the initial ping call \<^verbatim>\<open>sendCrossDomainMessage\<close> by its global name, which
  is the wrapper by then.
\<close>

definition runTask :: "frame \<Rightarrow> page \<Rightarrow> clock \<Rightarrow> task \<Rightarrow> bus \<Rightarrow> bus" where
  "runTask cx pg ck tk s =
     (case tk of
        PingTimeout mid \<Rightarrow>
          (if pendingPings s mid \<noteq> None
           then s\<lparr>pendingPings := (pendingPings s)(mid := None)\<rparr>
           else s)
      | RetrySend d opts \<Rightarrow> snd (sendCrossDomainMessage cx ck d opts s)
      | InitialPing \<Rightarrow>
          snd (sendCrossDomainMessage cx ck (emptyMessage\<lparr>action := Some ''ping''\<rparr>)
                 (defaultOptions\<lparr>retry := True\<rparr>) s)
      | DelayedAnalyze guarded \<Rightarrow>
          (if guarded \<and> stAnalyzing pg then s else emit [AnalyzeCurrentPage] s)
      | RemoveItem key \<Rightarrow> emit [RemovedItem key] s)"

text \<open>The event loop runs the \<open>i\<close>-th pending timer at time \<open>t\<close>; a timer never runs
  before it is due.\<close>

definition fireTimer :: "frame \<Rightarrow> page \<Rightarrow> clock \<Rightarrow> int \<Rightarrow> nat \<Rightarrow> bus \<Rightarrow> bus" where
  "fireTimer cx pg ck t i s =
     (if i < length (timers s) \<and> fst (timers s ! i) \<le> t
      then runTask cx pg ck (snd (timers s ! i))
             (s\<lparr>timers := take i (timers s) @ drop (Suc i) (timers s)\<rparr>)
      else s)"

subsection \<open>Auxiliary notions and example inputs\<close>

definition isDigit :: "char \<Rightarrow> bool" where
  "isDigit c = ((48::nat) \<le> of_char c \<and> of_char c \<le> (57::nat))"

text \<open>The callbacks called and the messages dispatched, read off a trace.\<close>

fun callbackCalls :: "effect list \<Rightarrow> (string \<times> message) list" where
  "callbackCalls [] = []"
| "callbackCalls (CallbackCalled cb m # es) = (cb, m) # callbackCalls es"
| "callbackCalls (e # es) = callbackCalls es"

fun dispatched :: "effect list \<Rightarrow> message list" where
  "dispatched [] = []"
| "dispatched (Dispatch m # es) = m # dispatched es"
| "dispatched (e # es) = dispatched es"

fun posted :: "effect list \<Rightarrow> message list" where
  "posted [] = []"
| "posted (PostMessage m # es) = m # posted es"
| "posted (e # es) = posted es"

text \<open>A plain name is one that no object inherits and that has no apostrophe in it; the
  action tags of the repository (\<^verbatim>\<open>ping\<close>, \<^verbatim>\<open>pong\<close>, \<^verbatim>\<open>updateStatus\<close>, ...) are plain.
  \<open>plainAction\<close> says it of the action of a message, if it has one.\<close>

definition plainName :: "string \<Rightarrow> bool" where
  "plainName a = (a \<notin> set objectPrototypeNames \<and> CHR 0x27 \<notin> set a)"

definition plainAction :: "message \<Rightarrow> bool" where
  "plainAction d = (case action d of None \<Rightarrow> True | Some a \<Rightarrow> plainName a)"

text \<open>The test \<^verbatim>\<open>shouldUseFallback\<close> of line 1638 and the test of line 1153, named for the
  statements below; \<open>accepted\<close>: the send passes the rate limiter and the content check.\<close>

definition usesFallback :: "message \<Rightarrow> bool" where
  "usesFallback d = (case action d of None \<Rightarrow> False | Some a \<Rightarrow> a \<in> set fallbackActions)"

definition isDuplicateId :: "message \<Rightarrow> bus \<Rightarrow> bool" where
  "isDuplicateId data s =
     (truthyStr (messageId data) \<and> the (messageId data) \<in> set (receivedMessageIds s))"

definition accepted :: "clock \<Rightarrow> message \<Rightarrow> options \<Rightarrow> bus \<Rightarrow> bool" where
  "accepted ck d opts s =
     (\<not> rateLimited opts (tNow ck) s (actionKeyOf d) \<and>
      \<not> duplicateSend opts (tNow ck) s (messageHash d))"

text \<open>The two logs of the \<^verbatim>\<open>message\<close> listener that can reach the collector (lines 1141
  and 1154) and the update of lines 1159-1166, named for the statements below.\<close>

definition receivedLog :: "frame \<Rightarrow> clock \<Rightarrow> message \<Rightarrow> bus \<Rightarrow> error option \<times> bus" where
  "receivedLog cx ck data s =
     debugLog cx ck ''Received message:'' (ObjectData (action data) None) s"

definition knownIdLog :: "frame \<Rightarrow> clock \<Rightarrow> message \<Rightarrow> bus \<Rightarrow> error option \<times> bus" where
  "knownIdLog cx ck data s =
     debugLog cx ck (''Ignoring already processed message: '' @ the (messageId data)) NoData s"

definition noted :: "message \<Rightarrow> bus \<Rightarrow> bus \<Rightarrow> bus" where
  "noted data s sl =
     (if truthyStr (messageId data)
      then sl\<lparr>receivedMessageIds := pushBounded (the (messageId data)) (receivedMessageIds s)\<rparr>
      else sl)"




text \<open>\<open>recordableAction\<close>: the action of the message, if it has one, is not a name that
  every object inherits.\<close>

definition recordableAction :: "message \<Rightarrow> bool" where
  "recordableAction d =
     (case action d of None \<Rightarrow> True | Some a \<Rightarrow> a \<notin> set objectPrototypeNames)"

text \<open>Example inputs: a frame on \<^verbatim>\<open>mylab.pearson.com\<close> with the collector loaded and a
  peer frame, a turn whose clock readings are all \<open>t\<close> and whose random strings are
  \<open>r\<close>, messages, pages that are and are not analysing.\<close>

definition exampleFrame :: frame where
  "exampleFrame = \<lparr>ctxOrigin = ''https://mylab.pearson.com'', currentDomain = ''mylab'',
     hasDebug = True\<rparr>"

definition peerOrigin :: string where
  "peerOrigin = ''https://mylabmastering.pearson.com''"

definition peerFrame :: frame where
  "peerFrame = \<lparr>ctxOrigin = ''https://mylabmastering.pearson.com'',
     currentDomain = ''mylabmastering'', hasDebug = True\<rparr>"

definition clockAt :: "int \<Rightarrow> string \<Rightarrow> clock" where
  "clockAt t r = \<lparr>recvTime = t, idTime = t, idRandom = r, tNow = t, fbNow = t, keyTime = t,
     keyRandom = r, jitter = 0, logTime = t\<rparr>"

definition pingMessage :: message where
  "pingMessage = emptyMessage\<lparr>action := Some ''ping''\<rparr>"

definition statusMessage :: message where
  "statusMessage = emptyMessage\<lparr>action := Some ''updateStatus'', enabled := Some True\<rparr>"

definition pongMessage :: message where
  "pongMessage = emptyMessage\<lparr>action := Some ''pong'', hasQuestions := Some True\<rparr>"

definition busyPage :: page where
  "busyPage = \<lparr>stEnabled = Some True, stAnalyzing = True, questionsPresent = False\<rparr>"

definition idlePage :: page where
  "idlePage = \<lparr>stEnabled = Some True, stAnalyzing = False, questionsPresent = False\<rparr>"

text \<open>An envelope sent by another frame of the receiver's own site (a storage event
  reaches only documents of the writer's origin), as the primary channel and as the
  storage channel carry it.\<close>

definition siblingOrigin :: string where
  "siblingOrigin = ''https://mylab.pearson.com''"

definition siblingEnvelope :: message where
  "siblingEnvelope = emptyMessage\<lparr>msgSource := Some ''pearson_ai_solver'',
     action := Some ''analyzeQuestion'', msgFrom := Some ''mylab'',
     timestamp := Some 1000000, messageId := Some ''msg_1000000_abc'',
     path := Some [''mylab'']\<rparr>"

definition storedEnvelope :: message where
  "storedEnvelope = siblingEnvelope\<lparr>path := None, fallback := True\<rparr>"

definition storedKey :: string where
  "storedKey = ''pearson_ai_solver_msg_1000000_k''"



definition pongFor :: "string \<Rightarrow> string \<Rightarrow> message" where
  "pongFor pingId mid = emptyMessage\<lparr>msgSource := Some ''pearson_ai_solver'',
     action := Some ''pong'', replyTo := Some pingId, hasQuestions := Some False,
     msgFrom := Some ''mylabmastering'', timestamp := Some 1000050, messageId := Some mid,
     path := Some [''mylabmastering'']\<rparr>"

definition retriedPing :: options where
  "retriedPing = defaultOptions\<lparr>retry := True\<rparr>"

text \<open>Two callbacks, one that returns and one that throws, and the bus after a ping with
  either.\<close>

definition onReply :: callback where
  "onReply = \<lparr>cbName = ''onReply'', cbThrows = (\<lambda>m. False)\<rparr>"

definition failingReply :: callback where
  "failingReply = \<lparr>cbName = ''failingReply'', cbThrows = (\<lambda>m. True)\<rparr>"

definition pingWith :: "callback \<Rightarrow> bus" where
  "pingWith cb =
     snd (sendCrossDomainMessage exampleFrame (clockAt 1000000 ''a'') pingMessage
            (defaultOptions\<lparr>callback := Some cb\<rparr>) (initialBus 0))"

text \<open>\<open>recordedSends ts act c\<close> records a send of \<open>act\<close> at each time of \<open>ts\<close>, as
  \<^verbatim>\<open>debugLog\<close> does for the message of line 1389. \<open>rateOf\<close> and \<open>ratingOf\<close> read a rate
  and the flow rating out of a result (\<open>None\<close> when the call threw).\<close>

definition recordedSends :: "int list \<Rightarrow> string \<Rightarrow> collector \<Rightarrow> collector" where
  "recordedSends ts act c =
     foldl (\<lambda>c t. snd (recordMessageStat t Sent act (Some (PointObject (Some act) None)) c)) c ts"

definition rateOf :: "error + report \<Rightarrow> string \<Rightarrow> string \<Rightarrow> rat option" where
  "rateOf r act category =
     (case r of Inl e \<Rightarrow> None | Inr rep \<Rightarrow> map_of (subObject (messageRate rep) act) category)"

definition ratingOf :: "error + analysis \<Rightarrow> string option" where
  "ratingOf r = (case r of Inl e \<Rightarrow> None | Inr a \<Rightarrow> Some (flowRating a))"

text \<open>\<open>statsWith acts stored circ\<close> is the shape the collector keeps while only sends are
  recorded.\<close>

definition statsWith ::
  "(string \<times> entry) list \<Rightarrow> (string \<times> statEntry) list \<Rightarrow> circularPath list \<Rightarrow> collector" where
  "statsWith acts stored circ =
     \<lparr>stSent = acts, stReceived = [], stThrottled = [], stLocalStorage = stored,
      circularPaths = circ, protoCount = False\<rparr>"

definition zeroStorage :: "(string \<times> statEntry) list" where
  "zeroStorage = [(''sent'', Full (Entry 0 [] [])), (''received'', Full (Entry 0 [] []))]"

definition blankStorage :: "(string \<times> statEntry) list" where
  "blankStorage = [(''sent'', Blank), (''received'', Blank)]"

definition burst :: "int list" where
  "burst = [1000000, 1000090, 1000180, 1000270, 1000360, 1000450, 1000540, 1000630,
            1000720, 1000810, 1000900]"

section \<open>Properties of the embedding\<close>

lemmas scenario_defs = exampleFrame_def clockAt_def pingMessage_def statusMessage_def
  emptyMessage_def defaultOptions_def initialBus_def

lemmas peer_defs = peerOrigin_def siblingOrigin_def busyPage_def siblingEnvelope_def
  storedEnvelope_def storedKey_def

subsection \<open>Message ids: distinct readings give distinct ids\<close>

lemma showNat_nonempty: "showNat n \<noteq> []"
  by (subst showNat.simps) simp

lemma showNat_digits: "list_all isDigit (showNat n)"
proof (induction n rule: showNat.induct)
  case (1 n)
  show ?case
  proof (cases "n < 10")
    case True
    then show ?thesis by (subst showNat.simps) (simp add: isDigit_def)
  next
    case False
    have "n mod 10 < 10" by simp
    then have "isDigit (char_of (48 + n mod 10))"
      unfolding isDigit_def by simp
    with False 1 show ?thesis by (subst showNat.simps) simp
  qed
qed

lemma char_of_digit_inj:
  assumes "a < 10" "b < 10" "char_of (48 + a) = (char_of (48 + b) :: char)"
  shows "a = (b::nat)"
proof -
  have "of_char (char_of (48 + a) :: char) = (of_char (char_of (48 + b) :: char) :: nat)"
    using assms(3) by simp
  with assms(1,2) show ?thesis by simp
qed

lemma showNat_inj: "showNat m = showNat n \<Longrightarrow> m = n"
proof (induction m arbitrary: n rule: showNat.induct)
  case (1 m)
  show ?case
  proof (cases "m < 10")
    case mT: True
    show ?thesis
    proof (cases "n < 10")
      case True
      with mT 1(2) show ?thesis
        by (subst (asm) showNat.simps, subst (asm) (2) showNat.simps) (auto dest: char_of_digit_inj)
    next
      case False
      from 1(2) have "length (showNat m) = length (showNat n)" by simp
      moreover have "length (showNat m) = 1" using mT by (subst showNat.simps) simp
      moreover have "length (showNat n) = length (showNat (n div 10)) + 1"
        using False by (subst showNat.simps) simp
      moreover have "length (showNat (n div 10)) > 0" using showNat_nonempty by simp
      ultimately show ?thesis by simp
    qed
  next
    case mF: False
    show ?thesis
    proof (cases "n < 10")
      case True
      from 1(2) have "length (showNat m) = length (showNat n)" by simp
      moreover have "length (showNat n) = 1" using True by (subst showNat.simps) simp
      moreover have "length (showNat m) = length (showNat (m div 10)) + 1"
        using mF by (subst showNat.simps) simp
      moreover have "length (showNat (m div 10)) > 0" using showNat_nonempty by simp
      ultimately show ?thesis by simp
    next
      case False
      have em: "showNat m = showNat (m div 10) @ [char_of (48 + m mod 10)]"
        using mF by (subst showNat.simps) simp
      have en: "showNat n = showNat (n div 10) @ [char_of (48 + n mod 10)]"
        using False by (subst showNat.simps) simp
      from 1(2) em en have a: "showNat (m div 10) = showNat (n div 10)"
        and b: "char_of (48 + m mod 10) = (char_of (48 + n mod 10) :: char)" by simp_all
      from 1(1)[OF mF a] have "m div 10 = n div 10" .
      moreover from b have "m mod 10 = n mod 10"
        by (intro char_of_digit_inj) simp_all
      ultimately show ?thesis by (metis div_mult_mod_eq)
    qed
  qed
qed

lemma split_at_sep:
  "xs @ c # ys = xs' @ c # ys' \<Longrightarrow> c \<notin> set xs \<Longrightarrow> c \<notin> set xs' \<Longrightarrow> xs = xs' \<and> ys = ys'"
proof (induction xs arbitrary: xs')
  case Nil
  then show ?case by (cases xs') auto
next
  case (Cons a xs)
  then show ?case by (cases xs') auto
qed

lemma isDigit_not_sep: "isDigit c \<Longrightarrow> c \<noteq> CHR ''_'' \<and> c \<noteq> CHR ''-''"
  by (auto simp: isDigit_def)

lemma showNat_no_sep: "CHR ''_'' \<notin> set (showNat n)" "CHR ''-'' \<notin> set (showNat n)"
  using showNat_digits[of n] isDigit_not_sep by (auto simp: list_all_iff)

lemma showInt_no_sep: "CHR ''_'' \<notin> set (showInt i)"
  by (simp add: showInt_def showNat_no_sep)

lemma showInt_inj: "showInt i = showInt j \<Longrightarrow> i = j"
proof -
  assume e: "showInt i = showInt j"
  have hd_nat: "\<And>n. hd (showNat n) \<noteq> CHR ''-''"
    using showNat_no_sep(2) showNat_nonempty by (metis list.set_sel(1))
  show ?thesis
  proof (cases "i < 0")
    case iT: True
    show ?thesis
    proof (cases "j < 0")
      case True
      with iT e have "showNat (nat (- i)) = showNat (nat (- j))" by (simp add: showInt_def)
      then have "nat (- i) = nat (- j)" by (rule showNat_inj)
      with iT True show ?thesis by simp
    next
      case False
      with iT e have "CHR ''-'' # showNat (nat (- i)) = showNat (nat j)" by (simp add: showInt_def)
      then have "hd (showNat (nat j)) = CHR ''-''" by (metis list.sel(1))
      with hd_nat show ?thesis by simp
    qed
  next
    case iF: False
    show ?thesis
    proof (cases "j < 0")
      case True
      with iF e have "showNat (nat i) = CHR ''-'' # showNat (nat (- j))" by (simp add: showInt_def)
      then have "hd (showNat (nat i)) = CHR ''-''" by (metis list.sel(1))
      with hd_nat show ?thesis by simp
    next
      case False
      with iF e have "showNat (nat i) = showNat (nat j)" by (simp add: showInt_def)
      then have "nat i = nat j" by (rule showNat_inj)
      with iF False show ?thesis by simp
    qed
  qed
qed

lemma genMessageId_inj:
  "genMessageId t r = genMessageId t' r' \<longleftrightarrow> t = t' \<and> r = r'"
proof
  assume "genMessageId t r = genMessageId t' r'"
  then have "showInt t @ CHR ''_'' # r = showInt t' @ CHR ''_'' # r'"
    by (simp add: genMessageId_def)
  from split_at_sep[OF this showInt_no_sep showInt_no_sep] showInt_inj
  show "t = t' \<and> r = r'" by blast
qed simp

subsection \<open>What \<^verbatim>\<open>debugLog\<close> finds in the texts of the bus\<close>

lemma startsWith_set: "startsWith s p \<Longrightarrow> set p \<subseteq> set s"
proof -
  assume "startsWith s p"
  then have "p = take (length p) s" by (simp add: startsWith_def)
  then have "set p = set (take (length p) s)" by simp
  then show ?thesis using set_take_subset[of "length p" s] by simp
qed

lemma no_apostrophe_no_match: "CHR 0x27 \<notin> set msg \<Longrightarrow> rateLimitingMatch msg = None"
proof (induction msg)
  case Nil
  show ?case by simp
next
  case (Cons c cs)
  have "\<not> startsWith (c # cs) (''Rate limiting message '' @ [CHR 0x27])"
  proof
    assume "startsWith (c # cs) (''Rate limiting message '' @ [CHR 0x27])"
    from startsWith_set[OF this] have "CHR 0x27 \<in> set (c # cs)" by simp
    with Cons.prems show False by simp
  qed
  with Cons show ?case by simp
qed

lemma rateLimitText_match:
  assumes "CHR 0x27 \<notin> set k" and "k \<noteq> []"
  shows "rateLimitingMatch (rateLimitText k) = Some k"
proof -
  have tw: "takeWhile (\<lambda>x. x \<noteq> CHR 0x27) (k @ CHR 0x27 # r) = k" for r
    using assms(1) by (induction k) auto
  show ?thesis
    using assms(2) by (simp add: rateLimitText_def startsWith_def tw)
qed

lemma classify_NoData:
  "classify msg NoData =
     (if (str_includes msg ''Sending'' \<or> str_includes msg ''Received'') \<and>
         str_includes msg ''message'' then None
      else if str_includes msg ''Rate limiting''
      then map_option (Pair Throttled) (rateLimitingMatch msg)
      else None)"
  by (auto simp: classify_def actionOfData_def stringOfData_def)

lemma classify_no_apostrophe: "CHR 0x27 \<notin> set msg \<Longrightarrow> classify msg NoData = None"
  by (simp add: classify_NoData no_apostrophe_no_match)

lemma classify_rateLimitText:
  "CHR 0x27 \<notin> set k \<Longrightarrow> k \<noteq> [] \<Longrightarrow>
   classify (rateLimitText k) NoData = None \<or>
   classify (rateLimitText k) NoData = Some (Throttled, k)"
  by (simp add: classify_NoData rateLimitText_match)

lemma classify_sending:
  "classify ''Sending cross-domain message:'' (ObjectData a p) =
     (if truthyStr a then Some (Sent, the a) else None)"
  by (auto simp: classify_def actionOfData_def startsWith_def truthyStr_def split: option.splits)

lemma classify_received:
  "classify ''Received message:'' (ObjectData a p) =
     (if truthyStr a then Some (Received, the a) else None)"
  by (auto simp: classify_def actionOfData_def startsWith_def truthyStr_def split: option.splits)

lemma recordInto_plain:
  "act \<notin> set objectPrototypeNames \<Longrightarrow> fst (recordInto now act dat acts) = None"
  by (simp add: recordInto_def split: option.splits entry.splits)

lemma recordMessageStat_plain:
  "act \<notin> set objectPrototypeNames \<Longrightarrow> cat \<in> {Sent, Received, Throttled} \<Longrightarrow>
   fst (recordMessageStat now cat act dat c) = None"
proof -
  assume a: "act \<notin> set objectPrototypeNames" and c: "cat \<in> {Sent, Received, Throttled}"
  have r: "fst (recordInto now act dat acts) = None" for acts
    using a by (rule recordInto_plain)
  have "fst (case recordInto now act dat acts of (e, acts', w) \<Rightarrow> (e, f acts' w)) = None" for acts f
    using r[of acts] by (cases "recordInto now act dat acts") simp
  then show ?thesis using c by (auto simp: recordMessageStat_def)
qed

lemma debugLog_frame [simp]:
  "receivedMessageIds (snd (debugLog cx ck msg dat s)) = receivedMessageIds s"
  "sentMessageIds (snd (debugLog cx ck msg dat s)) = sentMessageIds s"
  "sentMessageHashes (snd (debugLog cx ck msg dat s)) = sentMessageHashes s"
  "messageThrottleTimestamps (snd (debugLog cx ck msg dat s)) = messageThrottleTimestamps s"
  "pendingPings (snd (debugLog cx ck msg dat s)) = pendingPings s"
  "processedStorageMessages (snd (debugLog cx ck msg dat s)) = processedStorageMessages s"
  "lastStorageMessageTimes (snd (debugLog cx ck msg dat s)) = lastStorageMessageTimes s"
  "storageLastSentTimes (snd (debugLog cx ck msg dat s)) = storageLastSentTimes s"
  "timers (snd (debugLog cx ck msg dat s)) = timers s"
  "trace (snd (debugLog cx ck msg dat s)) = trace s"
  by (simp_all add: debugLog_def split: option.splits prod.splits)

lemma debugLog_without_collector:
  "\<not> hasDebug cx \<Longrightarrow> debugLog cx ck msg dat s = (None, s)"
  by (simp add: debugLog_def)

lemma debugLog_unclassified:
  "classify msg dat = None \<Longrightarrow> debugLog cx ck msg dat s = (None, s)"
  by (simp add: debugLog_def)

lemma debugLog_plain:
  assumes "classify msg dat = None \<or> classify msg dat = Some (cat, act)"
      and "act \<notin> set objectPrototypeNames" and "cat \<in> {Sent, Received, Throttled}"
  shows "fst (debugLog cx ck msg dat s) = None"
proof -
  have "fst (recordMessageStat (logTime ck) cat act (Some (pointOf msg dat)) (stats s)) = None"
    using assms(2,3) by (rule recordMessageStat_plain)
  then show ?thesis
    using assms(1) by (auto simp: debugLog_def split: prod.splits option.splits)
qed

lemma debugLog_same_stats:
  "stats s' = stats s \<Longrightarrow> fst (debugLog cx ck msg dat s') = fst (debugLog cx ck msg dat s)"
  by (simp add: debugLog_def split: option.splits prod.splits)

lemma plainAction_key: "plainAction d = plainName (actionKeyOf d)"
  by (simp add: plainAction_def actionKeyOf_def plainName_def objectPrototypeNames_def
      split: option.splits)

lemma log_sending_quiet:
  "hasDebug cx \<longrightarrow> plainAction d \<Longrightarrow>
   fst (debugLog cx ck ''Sending cross-domain message:'' (ObjectData (action d) p) s) = None"
proof (cases "hasDebug cx")
  case False
  then show ?thesis by (simp add: debugLog_without_collector)
next
  case True
  assume "hasDebug cx \<longrightarrow> plainAction d"
  with True have pa: "plainAction d" by simp
  show ?thesis
  proof (cases "truthyStr (action d)")
    case False
    then show ?thesis by (simp add: debugLog_unclassified classify_sending)
  next
    case t: True
    then obtain a where a: "action d = Some a" by (auto simp: truthyStr_def split: option.splits)
    with pa have "a \<notin> set objectPrototypeNames" by (simp add: plainAction_def plainName_def)
    moreover have "classify ''Sending cross-domain message:'' (ObjectData (action d) p) = Some (Sent, a)"
      using t a by (simp add: classify_sending)
    ultimately show ?thesis by (intro debugLog_plain[where cat = Sent and act = a]) simp_all
  qed
qed

lemma log_received_quiet:
  "hasDebug cx \<longrightarrow> plainAction d \<Longrightarrow>
   fst (debugLog cx ck ''Received message:'' (ObjectData (action d) p) s) = None"
proof (cases "hasDebug cx")
  case False
  then show ?thesis by (simp add: debugLog_without_collector)
next
  case True
  assume "hasDebug cx \<longrightarrow> plainAction d"
  with True have pa: "plainAction d" by simp
  show ?thesis
  proof (cases "truthyStr (action d)")
    case False
    then show ?thesis by (simp add: debugLog_unclassified classify_received)
  next
    case t: True
    then obtain a where a: "action d = Some a" by (auto simp: truthyStr_def split: option.splits)
    with pa have "a \<notin> set objectPrototypeNames" by (simp add: plainAction_def plainName_def)
    moreover have "classify ''Received message:'' (ObjectData (action d) p) = Some (Received, a)"
      using t a by (simp add: classify_received)
    ultimately show ?thesis by (intro debugLog_plain[where cat = Received and act = a]) simp_all
  qed
qed

lemma actionKeyOf_nonempty: "actionKeyOf d \<noteq> []"
  by (simp add: actionKeyOf_def split: option.splits)

lemma log_limit_quiet:
  "hasDebug cx \<longrightarrow> plainAction d \<Longrightarrow>
   fst (debugLog cx ck (rateLimitText (actionKeyOf d)) NoData s) = None"
proof (cases "hasDebug cx")
  case False
  then show ?thesis by (simp add: debugLog_without_collector)
next
  case True
  assume "hasDebug cx \<longrightarrow> plainAction d"
  with True have pn: "plainName (actionKeyOf d)" by (simp add: plainAction_key)
  then have "classify (rateLimitText (actionKeyOf d)) NoData = None \<or>
      classify (rateLimitText (actionKeyOf d)) NoData = Some (Throttled, actionKeyOf d)"
    by (intro classify_rateLimitText) (simp_all add: plainName_def actionKeyOf_nonempty)
  then show ?thesis
    using pn by (intro debugLog_plain[where cat = Throttled and act = "actionKeyOf d"])
      (simp_all add: plainName_def)
qed

lemma log_duplicate_quiet:
  "hasDebug cx \<longrightarrow> plainAction d \<Longrightarrow>
   fst (debugLog cx ck (duplicateText d) NoData s) = None"
proof (cases "hasDebug cx")
  case False
  then show ?thesis by (simp add: debugLog_without_collector)
next
  case True
  assume "hasDebug cx \<longrightarrow> plainAction d"
  with True have "plainAction d" by simp
  then have "CHR 0x27 \<notin> set (duplicateText d)"
    by (auto simp: duplicateText_def showOpt_def plainAction_def plainName_def split: option.splits)
  then show ?thesis by (simp add: debugLog_unclassified classify_no_apostrophe)
qed

subsection \<open>The primary send, field by field\<close>

lemmas send_defs = sendPrimary_def Let_def case_prod_beta transmit_def

lemma sendPrimary_fst:
  "fst (sendPrimary cx ck d opts s) =
     (if rateLimited opts (tNow ck) s (actionKeyOf d)
      then (case fst (debugLog cx ck (rateLimitText (actionKeyOf d)) NoData s) of
              Some e \<Rightarrow> Inl e | None \<Rightarrow> Inr None)
      else if duplicateSend opts (tNow ck) s (messageHash d)
      then (case fst (debugLog cx ck (duplicateText d) NoData s) of
              Some e \<Rightarrow> Inl e | None \<Rightarrow> Inr None)
      else (case fst (debugLog cx ck ''Sending cross-domain message:''
                        (ObjectData (action d) None) s) of
              Some e \<Rightarrow> Inl e
            | None \<Rightarrow> Inr (Some (genMessageId (idTime ck) (idRandom ck)))))"
proof -
  have a: "fst (debugLog cx ck msg dat (s\<lparr>messageThrottleTimestamps := m\<rparr>)) =
      fst (debugLog cx ck msg dat s)" for msg dat m
    by (rule debugLog_same_stats) simp
  have b: "fst (debugLog cx ck msg dat (s\<lparr>messageThrottleTimestamps := m, sentMessageHashes := h,
      sentMessageIds := i\<rparr>)) = fst (debugLog cx ck msg dat s)" for msg dat m h i
    by (rule debugLog_same_stats) simp
  have c: "duplicateSend opts now (s\<lparr>messageThrottleTimestamps := m\<rparr>) h =
      duplicateSend opts now s h" for now m h
    by (simp add: duplicateSend_def)
  show ?thesis
    by (simp add: send_defs a b c split: option.splits)
qed

lemma duplicateSend_throttle [simp]:
  "duplicateSend opts now (s\<lparr>messageThrottleTimestamps := m\<rparr>) h = duplicateSend opts now s h"
  by (simp add: duplicateSend_def)

lemma sendPrimary_quiet:
  assumes "hasDebug cx \<longrightarrow> plainAction d"
  shows "fst (sendPrimary cx ck d opts s) =
     (if accepted ck d opts s then Inr (Some (genMessageId (idTime ck) (idRandom ck)))
      else Inr None)"
  by (simp add: sendPrimary_fst accepted_def log_sending_quiet[OF assms]
      log_limit_quiet[OF assms] log_duplicate_quiet[OF assms])

lemma sendPrimary_returned:
  "fst (sendPrimary cx ck d opts s) = Inr (Some m) \<Longrightarrow>
   m = genMessageId (idTime ck) (idRandom ck) \<and> accepted ck d opts s"
  by (auto simp: sendPrimary_fst accepted_def split: if_splits option.splits)



lemma sendPrimary_throttle:
  "messageThrottleTimestamps (snd (sendPrimary cx ck d opts s)) =
     (if rateLimited opts (tNow ck) s (actionKeyOf d) then messageThrottleTimestamps s
      else setProp (actionKeyOf d) (tNow ck) (messageThrottleTimestamps s))"
  by (simp add: send_defs split: option.splits)

lemma sendPrimary_hashes:
  "sentMessageHashes (snd (sendPrimary cx ck d opts s)) =
     (if accepted ck d opts s
      then cleanHashes (tNow ck) ((sentMessageHashes s)(messageHash d \<mapsto> tNow ck))
      else sentMessageHashes s)"
  by (simp add: send_defs accepted_def split: option.splits)

lemma sendPrimary_ids:
  "sentMessageIds (snd (sendPrimary cx ck d opts s)) =
     (if accepted ck d opts s
      then pushBounded (genMessageId (idTime ck) (idRandom ck)) (sentMessageIds s)
      else sentMessageIds s)"
  by (simp add: send_defs accepted_def split: option.splits)

lemma sendPrimary_trace:
  "trace (snd (sendPrimary cx ck d opts s)) =
     (if fst (sendPrimary cx ck d opts s) = Inr (Some (genMessageId (idTime ck) (idRandom ck)))
      then trace s @ [PostMessage (wireMessage cx (tNow ck)
                        (genMessageId (idTime ck) (idRandom ck)) d)]
      else trace s)"
  by (simp add: send_defs split: option.splits)

lemma sendPrimary_pending:
  "pendingPings (snd (sendPrimary cx ck d opts s)) =
     (if fst (sendPrimary cx ck d opts s) = Inr (Some (genMessageId (idTime ck) (idRandom ck))) \<and>
         action d = Some ''ping'' \<and> callback opts \<noteq> None
      then (pendingPings s)(genMessageId (idTime ck) (idRandom ck) \<mapsto>
              (tNow ck, the (callback opts)))
      else pendingPings s)"
  by (auto simp: send_defs split: option.splits)

lemma sendPrimary_timers:
  "timers (snd (sendPrimary cx ck d opts s)) =
     (if fst (sendPrimary cx ck d opts s) = Inr (Some (genMessageId (idTime ck) (idRandom ck)))
      then timers s @
        (if action d = Some ''ping'' \<and> callback opts \<noteq> None
         then [(tNow ck + 5000, PingTimeout (genMessageId (idTime ck) (idRandom ck)))]
         else []) @
        (if retry opts \<and> retryCount opts > 0
         then [(tNow ck + retryDelay opts, RetrySend d (retryOptions opts))]
         else [])
      else timers s)"
  by (auto simp: send_defs split: option.splits)

lemma sendPrimary_received:
  "receivedMessageIds (snd (sendPrimary cx ck d opts s)) = receivedMessageIds s"
  "processedStorageMessages (snd (sendPrimary cx ck d opts s)) = processedStorageMessages s"
  "lastStorageMessageTimes (snd (sendPrimary cx ck d opts s)) = lastStorageMessageTimes s"
  "storageLastSentTimes (snd (sendPrimary cx ck d opts s)) = storageLastSentTimes s"
  by (simp_all add: send_defs split: option.splits)

lemma cleanHashes_fresh [simp]: "cleanHashes now (hs(h \<mapsto> now)) h = Some now"
  by (simp add: cleanHashes_def)

lemma pushBounded_keepLast: "pushBounded x xs = keepLast 100 (xs @ [x])"
  by (simp add: pushBounded_def keepLast_def Let_def)



subsection \<open>The fallback wrapper and the handlers, field by field\<close>

lemma callbackCalls_append [simp]:
  "callbackCalls (xs @ ys) = callbackCalls xs @ callbackCalls ys"
  by (induction xs rule: callbackCalls.induct) simp_all

lemma dispatched_append [simp]:
  "dispatched (xs @ ys) = dispatched xs @ dispatched ys"
  by (induction xs rule: dispatched.induct) simp_all

lemma posted_append [simp]:
  "posted (xs @ ys) = posted xs @ posted ys"
  by (induction xs rule: posted.induct) simp_all

lemma sendCross_fst:
  "fst (sendCrossDomainMessage cx ck d opts s) =
     (case fst (sendPrimary cx ck d opts s) of
        Inl e \<Rightarrow> Inl e
      | Inr None \<Rightarrow> Inr None
      | Inr (Some mid) \<Rightarrow> if usesFallback d then Inl ReferenceError else Inr (Some mid))"
  by (auto simp: sendCrossDomainMessage_def usesFallback_def fallbackDebugLog_def Let_def
      split: option.splits sum.splits)

lemma sendCross_snd:
  "snd (sendCrossDomainMessage cx ck d opts s) =
     (let s1 = snd (sendPrimary cx ck d opts s)
      in if fst (sendPrimary cx ck d opts s) =
              Inr (Some (genMessageId (idTime ck) (idRandom ck))) \<and> usesFallback d \<and>
            \<not> elapsedLess (fbNow ck) (getProp (storageLastSentTimes s1) (actionKeyOf d)) 2000
         then s1\<lparr>storageLastSentTimes :=
                   setProp (actionKeyOf d) (fbNow ck) (storageLastSentTimes s1),
                 trace := trace s1 @
                   [SetItem (PREFIX @ showInt (keyTime ck) @ ''_'' @ keyRandom ck)
                      (storageMessage cx (fbNow ck) (genMessageId (idTime ck) (idRandom ck)) d)],
                 timers := timers s1 @
                   [(fbNow ck + 1000, RemoveItem (PREFIX @ showInt (keyTime ck) @ ''_'' @ keyRandom ck))]\<rparr>
         else s1)"
proof (cases "fst (sendPrimary cx ck d opts s)")
  case (Inl e)
  then show ?thesis by (simp add: sendCrossDomainMessage_def Let_def)
next
  case (Inr r)
  show ?thesis
  proof (cases r)
    case None
    with Inr show ?thesis by (simp add: sendCrossDomainMessage_def Let_def)
  next
    case (Some m)
    with Inr have "m = genMessageId (idTime ck) (idRandom ck)"
      using sendPrimary_returned by blast
    with Inr Some show ?thesis
      by (auto simp: sendCrossDomainMessage_def usesFallback_def fallbackDebugLog_def Let_def
          split: option.splits)
  qed
qed

lemma sendCross_plain_snd:
  "\<not> usesFallback d \<Longrightarrow>
   snd (sendCrossDomainMessage cx ck d opts s) = snd (sendPrimary cx ck d opts s)"
  by (simp add: sendCross_snd Let_def)

lemma sendCross_frame:
  "receivedMessageIds (snd (sendCrossDomainMessage cx ck d opts s)) = receivedMessageIds s"
  "processedStorageMessages (snd (sendCrossDomainMessage cx ck d opts s)) = processedStorageMessages s"
  "lastStorageMessageTimes (snd (sendCrossDomainMessage cx ck d opts s)) = lastStorageMessageTimes s"
  "pendingPings (snd (sendCrossDomainMessage cx ck d opts s)) =
     pendingPings (snd (sendPrimary cx ck d opts s))"
  "sentMessageIds (snd (sendCrossDomainMessage cx ck d opts s)) =
     sentMessageIds (snd (sendPrimary cx ck d opts s))"
  "messageThrottleTimestamps (snd (sendCrossDomainMessage cx ck d opts s)) =
     messageThrottleTimestamps (snd (sendPrimary cx ck d opts s))"
  "sentMessageHashes (snd (sendCrossDomainMessage cx ck d opts s)) =
     sentMessageHashes (snd (sendPrimary cx ck d opts s))"
  "posted (trace (snd (sendCrossDomainMessage cx ck d opts s))) =
     posted (trace (snd (sendPrimary cx ck d opts s)))"
  by (simp_all add: sendCross_snd Let_def sendPrimary_received)

lemma sendCross_callbacks [simp]:
  "callbackCalls (trace (snd (sendCrossDomainMessage cx ck d opts s))) = callbackCalls (trace s)"
  by (simp add: sendCross_snd Let_def sendPrimary_trace)

lemma sendCross_dispatched [simp]:
  "dispatched (trace (snd (sendCrossDomainMessage cx ck d opts s))) = dispatched (trace s)"
  by (simp add: sendCross_snd Let_def sendPrimary_trace)

lemma sendCross_pending_other:
  "action d \<noteq> Some ''ping'' \<Longrightarrow>
   pendingPings (snd (sendCrossDomainMessage cx ck d opts s)) = pendingPings s"
  by (simp add: sendCross_frame sendPrimary_pending)

lemma handlePong_frame:
  "receivedMessageIds (handlePong data s) = receivedMessageIds s"
  "processedStorageMessages (handlePong data s) = processedStorageMessages s"
  "lastStorageMessageTimes (handlePong data s) = lastStorageMessageTimes s"
  "sentMessageIds (handlePong data s) = sentMessageIds s"
  by (simp_all add: handlePong_def emit_def Let_def split: option.splits slot.splits)

lemma handlePong_dispatched [simp]:
  "dispatched (trace (handlePong data s)) = dispatched (trace s)"
  by (simp add: handlePong_def emit_def Let_def split: option.splits slot.splits)

lemma handlePong_pending:
  "replyTo data = Some r \<Longrightarrow> r \<noteq> [] \<Longrightarrow> pendingPings s r = Some (ts, cb) \<Longrightarrow>
   callbackCalls (trace (handlePong data s)) = callbackCalls (trace s) @ [(cbName cb, data)] \<and>
   pendingPings (handlePong data s) =
     (if cbThrows cb data then pendingPings s else (pendingPings s)(r := None))"
  by (simp add: handlePong_def emit_def getProp_def Let_def)


lemma handleMessage_frame:
  "receivedMessageIds (handleMessage cx pg ck data s) = receivedMessageIds s"
  "processedStorageMessages (handleMessage cx pg ck data s) = processedStorageMessages s"
  "lastStorageMessageTimes (handleMessage cx pg ck data s) = lastStorageMessageTimes s"
  by (simp_all add: handleMessage_def Let_def emit_def sendCross_frame handlePong_frame)

lemma handleMessage_dispatched:
  "dispatched (trace (handleMessage cx pg ck data s)) = dispatched (trace s) @ [data]"
  by (simp add: handleMessage_def Let_def emit_def)

lemma handleMessage_pong:
  "action data = Some ''pong'' \<Longrightarrow>
   handleMessage cx pg ck data s = handlePong data (emit [Dispatch data] s)"
  by (simp add: handleMessage_def Let_def)


subsection \<open>The counting loop\<close>

lemma countStep_map_of:
  "map_of (countStep acc k) d =
     (if d = k
      then (case map_of acc k of
              Some (Num n) \<Rightarrow> Some (Num (n + 1))
            | Some Junk \<Rightarrow> Some Junk
            | None \<Rightarrow> if k = ''__proto__'' then None
                      else if k \<in> set objectPrototypeNames then Some Junk
                      else Some (Num 1))
      else map_of acc d)"
  by (simp add: countStep_def update_conv' split: option.splits tally.splits)

lemma foldl_countStep_map_of:
  "map_of (foldl countStep acc p) d =
     (case map_of acc d of
        Some (Num n) \<Rightarrow> Some (Num (n + count_list p d))
      | Some Junk \<Rightarrow> Some Junk
      | None \<Rightarrow> if d \<notin> set p \<or> d = ''__proto__'' then None
                else if d \<in> set objectPrototypeNames then Some Junk
                else Some (Num (count_list p d)))"
proof (induction p arbitrary: acc)
  case Nil
  show ?case by (simp split: option.splits tally.splits)
next
  case (Cons k p)
  show ?case
    by (simp add: Cons.IH countStep_map_of split: option.splits tally.splits)
qed

lemma countDomains_map_of:
  "map_of (countDomains p) d =
     (if d \<notin> set p \<or> d = ''__proto__'' then None
      else if d \<in> set objectPrototypeNames then Some Junk
      else Some (Num (count_list p d)))"
  by (simp add: countDomains_def foldl_countStep_map_of)

lemma atLeast3_countDomains:
  "atLeast3 (map_of (countDomains p) d) =
     (d \<notin> set objectPrototypeNames \<and> 3 \<le> count_list p d)"
proof -
  have "d \<notin> set p \<Longrightarrow> count_list p d = 0" by (rule count_notin)
  moreover have "''__proto__'' \<in> set objectPrototypeNames" by (simp add: objectPrototypeNames_def)
  ultimately show ?thesis by (auto simp: countDomains_map_of atLeast3_def)
qed




lemma loopBlocked_iff:
  "loopBlocked cx data =
     (case path data of None \<Rightarrow> False
      | Some p \<Rightarrow> 5 < length p \<and> currentDomain cx \<notin> set objectPrototypeNames \<and>
                  3 \<le> count_list p (currentDomain cx))"
  by (simp add: loopBlocked_def atLeast3_countDomains split: option.splits)

subsection \<open>The listeners\<close>


lemma isEcho_received [simp]:
  "isEcho cx now data (s\<lparr>receivedMessageIds := ids\<rparr>) = isEcho cx now data s"
  by (simp add: isEcho_def)

lemma isEcho_log [simp]:
  "isEcho cx now data (snd (debugLog cx ck msg dat s)) = isEcho cx now data s"
  by (simp add: isEcho_def)

lemma isDuplicateId_log [simp]:
  "isDuplicateId data (snd (debugLog cx ck msg dat s)) = isDuplicateId data s"
  by (simp add: isDuplicateId_def)

lemma onMessage_outside:
  "\<not> isPearsonOrigin (ctxOrigin cx) (evOrigin ev) \<or> evData ev = None \<or>
   msgSource (the (evData ev)) \<noteq> Some ''pearson_ai_solver'' \<Longrightarrow>
   fst (onMessage cx pg ck ev s) \<in> {UntrustedOrigin, Ignored} \<and> snd (onMessage cx pg ck ev s) = s"
  by (auto simp: onMessage_def split: option.splits)

lemma onMessage_inside:
  assumes "isPearsonOrigin (ctxOrigin cx) (evOrigin ev)" and "evData ev = Some data"
      and "msgSource data = Some ''pearson_ai_solver''"
  shows "onMessage cx pg ck ev s =
     (case fst (receivedLog cx ck data s) of
        Some e \<Rightarrow> (Raised e, snd (receivedLog cx ck data s))
      | None \<Rightarrow>
          if isDuplicateId data s
          then (case fst (knownIdLog cx ck data (snd (receivedLog cx ck data s))) of
                  Some e \<Rightarrow> (Raised e, snd (knownIdLog cx ck data (snd (receivedLog cx ck data s))))
                | None \<Rightarrow> (AlreadyProcessed,
                            snd (knownIdLog cx ck data (snd (receivedLog cx ck data s)))))
          else if loopBlocked cx data
          then (LoopBlocked, noted data s (snd (receivedLog cx ck data s)))
          else if isEcho cx (recvTime ck) data s
          then (EchoIgnored, noted data s (snd (receivedLog cx ck data s)))
          else (Handled, handleMessage cx pg ck data (noted data s (snd (receivedLog cx ck data s)))))"
proof -
  obtain e1 sl where l: "debugLog cx ck ''Received message:'' (ObjectData (action data) None) s = (e1, sl)"
    by (cases "debugLog cx ck ''Received message:'' (ObjectData (action data) None) s") auto
  obtain e2 sd where d: "debugLog cx ck (''Ignoring already processed message: '' @ the (messageId data))
      NoData sl = (e2, sd)"
    by (cases "debugLog cx ck (''Ignoring already processed message: '' @ the (messageId data)) NoData sl") auto
  have r: "receivedMessageIds sl = receivedMessageIds s" and sn: "sentMessageIds sl = sentMessageIds s"
    using debugLog_frame(1,2)[of cx ck "''Received message:''" "ObjectData (action data) None" s] l
    by simp_all
  have echo: "isEcho cx (recvTime ck) data sl = isEcho cx (recvTime ck) data s"
    by (simp add: isEcho_def sn)
  show ?thesis
    unfolding onMessage_def receivedLog_def knownIdLog_def
    using assms l d r echo
    by (simp add: isDuplicateId_def noted_def Let_def split: option.splits)
qed

lemma receivedLog_frame [simp]:
  "receivedMessageIds (snd (receivedLog cx ck data s)) = receivedMessageIds s"
  "sentMessageIds (snd (receivedLog cx ck data s)) = sentMessageIds s"
  "pendingPings (snd (receivedLog cx ck data s)) = pendingPings s"
  "processedStorageMessages (snd (receivedLog cx ck data s)) = processedStorageMessages s"
  "lastStorageMessageTimes (snd (receivedLog cx ck data s)) = lastStorageMessageTimes s"
  "timers (snd (receivedLog cx ck data s)) = timers s"
  "trace (snd (receivedLog cx ck data s)) = trace s"
  by (simp_all add: receivedLog_def)

lemma knownIdLog_frame [simp]:
  "receivedMessageIds (snd (knownIdLog cx ck data s)) = receivedMessageIds s"
  "sentMessageIds (snd (knownIdLog cx ck data s)) = sentMessageIds s"
  "pendingPings (snd (knownIdLog cx ck data s)) = pendingPings s"
  "processedStorageMessages (snd (knownIdLog cx ck data s)) = processedStorageMessages s"
  "lastStorageMessageTimes (snd (knownIdLog cx ck data s)) = lastStorageMessageTimes s"
  "timers (snd (knownIdLog cx ck data s)) = timers s"
  "trace (snd (knownIdLog cx ck data s)) = trace s"
  by (simp_all add: knownIdLog_def)

lemma noted_frame [simp]:
  "receivedMessageIds (noted data s sl) =
     (if truthyStr (messageId data) then pushBounded (the (messageId data)) (receivedMessageIds s)
      else receivedMessageIds sl)"
  "sentMessageIds (noted data s sl) = sentMessageIds sl"
  "pendingPings (noted data s sl) = pendingPings sl"
  "processedStorageMessages (noted data s sl) = processedStorageMessages sl"
  "lastStorageMessageTimes (noted data s sl) = lastStorageMessageTimes sl"
  "timers (noted data s sl) = timers sl"
  "trace (noted data s sl) = trace sl"
  by (simp_all add: noted_def)

lemma onMessage_fst:
  assumes "isPearsonOrigin (ctxOrigin cx) (evOrigin ev)" and "evData ev = Some data"
      and "msgSource data = Some ''pearson_ai_solver''"
  shows "fst (onMessage cx pg ck ev s) =
     (case fst (receivedLog cx ck data s) of
        Some e \<Rightarrow> Raised e
      | None \<Rightarrow>
          if isDuplicateId data s
          then (case fst (knownIdLog cx ck data (snd (receivedLog cx ck data s))) of
                  Some e \<Rightarrow> Raised e | None \<Rightarrow> AlreadyProcessed)
          else if loopBlocked cx data then LoopBlocked
          else if isEcho cx (recvTime ck) data s then EchoIgnored
          else Handled)"
  by (simp add: onMessage_inside[OF assms] split: option.splits)

lemma onMessage_handledD:
  assumes "fst (onMessage cx pg ck ev s) = Handled"
  shows "isPearsonOrigin (ctxOrigin cx) (evOrigin ev) \<and> evData ev \<noteq> None \<and>
         msgSource (the (evData ev)) = Some ''pearson_ai_solver''"
  using assms onMessage_outside[of cx ev pg ck s] by force

lemma onMessage_handled:
  assumes "fst (onMessage cx pg ck ev s) = Handled"
  shows "snd (onMessage cx pg ck ev s) =
     handleMessage cx pg ck (the (evData ev))
       (noted (the (evData ev)) s (snd (receivedLog cx ck (the (evData ev)) s)))"
proof -
  from onMessage_handledD[OF assms] obtain data where
    h: "isPearsonOrigin (ctxOrigin cx) (evOrigin ev)" "evData ev = Some data"
       "msgSource data = Some ''pearson_ai_solver''" by auto
  from assms show ?thesis
    unfolding onMessage_inside[OF h] using h(2)
    by (simp split: option.splits if_splits)
qed

lemma onMessage_unhandled:
  assumes "fst (onMessage cx pg ck ev s) \<noteq> Handled"
  shows "trace (snd (onMessage cx pg ck ev s)) = trace s \<and>
   pendingPings (snd (onMessage cx pg ck ev s)) = pendingPings s \<and>
   timers (snd (onMessage cx pg ck ev s)) = timers s \<and>
   sentMessageIds (snd (onMessage cx pg ck ev s)) = sentMessageIds s"
proof (cases "isPearsonOrigin (ctxOrigin cx) (evOrigin ev) \<and> evData ev \<noteq> None \<and>
         msgSource (the (evData ev)) = Some ''pearson_ai_solver''")
  case False
  then show ?thesis using onMessage_outside[of cx ev pg ck s] by auto
next
  case True
  then obtain data where
    h: "isPearsonOrigin (ctxOrigin cx) (evOrigin ev)" "evData ev = Some data"
       "msgSource data = Some ''pearson_ai_solver''" by auto
  from assms show ?thesis
    unfolding onMessage_inside[OF h]
    by (simp split: option.splits if_splits)
qed


lemma onMessage_known_id_quiet:
  assumes "isPearsonOrigin (ctxOrigin cx) (evOrigin ev)" and "evData ev = Some data"
      and "msgSource data = Some ''pearson_ai_solver''" and "isDuplicateId data s"
      and "hasDebug cx \<longrightarrow> plainAction data \<and> CHR 0x27 \<notin> set (the (messageId data))"
  shows "fst (onMessage cx pg ck ev s) = AlreadyProcessed"
proof -
  from assms(5) have p: "hasDebug cx \<longrightarrow> plainAction data" by simp
  have "fst (knownIdLog cx ck data s') = None" for s'
  proof (cases "hasDebug cx")
    case False
    then show ?thesis by (simp add: knownIdLog_def debugLog_without_collector)
  next
    case True
    with assms(5) have "CHR 0x27 \<notin> set (''Ignoring already processed message: '' @ the (messageId data))"
      by simp
    then show ?thesis by (simp add: knownIdLog_def debugLog_unclassified classify_no_apostrophe)
  qed
  moreover have "fst (receivedLog cx ck data s) = None"
    unfolding receivedLog_def by (rule log_received_quiet[OF p])
  ultimately show ?thesis
    using assms(4) by (simp add: onMessage_fst[OF assms(1-3)])
qed



lemma onMessage_records_id:
  "fst (onMessage cx pg ck ev s) = Handled \<Longrightarrow> evData ev = Some data \<Longrightarrow>
   messageId data = Some m \<Longrightarrow> m \<noteq> [] \<Longrightarrow>
   receivedMessageIds (snd (onMessage cx pg ck ev s)) = pushBounded m (receivedMessageIds s)"
  by (simp add: onMessage_handled handleMessage_frame truthyStr_def)

lemma onMessage_dispatched:
  "dispatched (trace (snd (onMessage cx pg ck ev s))) =
     dispatched (trace s) @ (if fst (onMessage cx pg ck ev s) = Handled then [the (evData ev)] else [])"
proof (cases "fst (onMessage cx pg ck ev s) = Handled")
  case True
  then show ?thesis by (simp add: onMessage_handled handleMessage_dispatched)
next
  case False
  then show ?thesis using onMessage_unhandled[OF False] by simp
qed


















lemma onStorage_trace:
  "fst (onStorage cx pg ck ev s) \<noteq> Handled \<and> trace (snd (onStorage cx pg ck ev s)) = trace s"
  by (auto simp: onStorage_def Let_def fallbackDebugLog_def split: option.splits)

subsection \<open>Timers\<close>

lemma usesFallback_ping: "action d = Some ''ping'' \<Longrightarrow> \<not> usesFallback d"
  by (simp add: usesFallback_def fallbackActions_def)

lemma runTask_PingTimeout_pending:
  "pendingPings (runTask cx pg ck (PingTimeout mid) s) = (pendingPings s)(mid := None)"
proof (cases "pendingPings s mid")
  case None
  then have "(pendingPings s)(mid := None) = pendingPings s" by (rule fun_upd_idem)
  with None show ?thesis by (simp add: runTask_def)
next
  case (Some a)
  then show ?thesis by (simp add: runTask_def)
qed

lemma runTask_PingTimeout_trace:
  "trace (runTask cx pg ck (PingTimeout mid) s) = trace s"
  by (simp add: runTask_def)

lemma fireTimer_not_due:
  "i < length (timers s) \<Longrightarrow> t < fst (timers s ! i) \<Longrightarrow> fireTimer cx pg ck t i s = s"
  by (simp add: fireTimer_def)

lemma fireTimer_due:
  "i < length (timers s) \<Longrightarrow> fst (timers s ! i) \<le> t \<Longrightarrow>
   fireTimer cx pg ck t i s =
     runTask cx pg ck (snd (timers s ! i)) (s\<lparr>timers := take i (timers s) @ drop (Suc i) (timers s)\<rparr>)"
  by (simp add: fireTimer_def)

subsection \<open>Retries, unseen envelopes and replies\<close>

lemma retry_accepted: "accepted ck d (retryOptions opts) s"
  by (simp add: accepted_def rateLimited_def duplicateSend_def retryOptions_def)

lemma sendCross_posts:
  "fst (sendPrimary cx ck d opts s) = Inr (Some mid) \<Longrightarrow>
   PostMessage (wireMessage cx (tNow ck) (genMessageId (idTime ck) (idRandom ck)) d)
     \<in> set (trace (snd (sendCrossDomainMessage cx ck d opts s)))"
proof -
  assume a: "fst (sendPrimary cx ck d opts s) = Inr (Some mid)"
  then have "mid = genMessageId (idTime ck) (idRandom ck)" using sendPrimary_returned by blast
  with a show ?thesis by (auto simp: sendCross_snd Let_def sendPrimary_trace)
qed

lemma onMessage_fresh_handled:
  assumes "isPearsonOrigin (ctxOrigin cx) origin"
      and "msgSource data = Some ''pearson_ai_solver''"
      and "messageId data = Some m"
      and "m \<notin> set (receivedMessageIds s)"
      and "m \<notin> set (sentMessageIds s)"
      and "\<not> loopBlocked cx data"
      and "hasDebug cx \<longrightarrow> plainAction data"
  shows "fst (onMessage cx pg ck \<lparr>evOrigin = origin, evData = Some data\<rparr> s) = Handled"
proof -
  have "fst (receivedLog cx ck data s) = None"
    unfolding receivedLog_def by (rule log_received_quiet[OF assms(7)])
  then show ?thesis
    using assms(3-6)
    by (subst onMessage_fst[where data = data]) (simp_all add: assms(1,2) isDuplicateId_def isEcho_def)
qed

lemma log_received_recordable:
  assumes "hasDebug cx \<longrightarrow> recordableAction d"
  shows "fst (receivedLog cx ck d s) = None"
proof (cases "hasDebug cx")
  case False
  then show ?thesis by (simp add: receivedLog_def debugLog_without_collector)
next
  case True
  with assms have r: "recordableAction d" by simp
  show ?thesis
  proof (cases "truthyStr (action d)")
    case False
    then show ?thesis by (simp add: receivedLog_def debugLog_unclassified classify_received)
  next
    case t: True
    then obtain a where a: "action d = Some a" by (auto simp: truthyStr_def split: option.splits)
    with r have "a \<notin> set objectPrototypeNames" by (simp add: recordableAction_def)
    moreover have "classify ''Received message:'' (ObjectData (action d) None) = Some (Received, a)"
      using t a by (simp add: classify_received)
    ultimately show ?thesis
      unfolding receivedLog_def by (intro debugLog_plain[where cat = Received and act = a]) simp_all
  qed
qed

lemma onMessage_unseen_handled:
  assumes "isPearsonOrigin (ctxOrigin cx) origin"
      and "msgSource data = Some ''pearson_ai_solver''"
      and "messageId data = Some m"
      and "m \<notin> set (receivedMessageIds s)"
      and "m \<notin> set (sentMessageIds s)"
      and "\<not> loopBlocked cx data"
      and "hasDebug cx \<longrightarrow> recordableAction data"
  shows "fst (onMessage cx pg ck \<lparr>evOrigin = origin, evData = Some data\<rparr> s) = Handled"
proof -
  have "fst (receivedLog cx ck data s) = None" by (rule log_received_recordable[OF assms(7)])
  then show ?thesis
    using assms(3-6)
    by (subst onMessage_fst[where data = data]) (simp_all add: assms(1,2) isDuplicateId_def isEcho_def)
qed

lemma posted_mem: "m \<in> set (posted es) \<longleftrightarrow> PostMessage m \<in> set es"
  by (induction es rule: posted.induct) auto


lemma clockAt_sel [simp]:
  "recvTime (clockAt t r) = t" "idTime (clockAt t r) = t" "idRandom (clockAt t r) = r"
  "tNow (clockAt t r) = t" "fbNow (clockAt t r) = t" "keyTime (clockAt t r) = t"
  "keyRandom (clockAt t r) = r" "jitter (clockAt t r) = 0" "logTime (clockAt t r) = t"
  by (simp_all add: clockAt_def)

lemma initialBus_sel [simp]:
  "receivedMessageIds (initialBus t0) = []" "sentMessageIds (initialBus t0) = []"
  "sentMessageHashes (initialBus t0) = Map.empty"
  "messageThrottleTimestamps (initialBus t0) = Map.empty"
  "pendingPings (initialBus t0) = Map.empty" "processedStorageMessages (initialBus t0) = []"
  "lastStorageMessageTimes (initialBus t0) = Map.empty"
  "storageLastSentTimes (initialBus t0) = Map.empty"
  "timers (initialBus t0) = [(t0 + 1000, InitialPing)]" "trace (initialBus t0) = []"
  "stats (initialBus t0) = initialStats"
  by (simp_all add: initialBus_def)

lemma plain_examples:
  "plainAction pingMessage" "plainAction statusMessage" "plainAction pongMessage"
  "plainAction siblingEnvelope" "plainAction (pongFor a b)"
  by (simp_all add: plainAction_def plainName_def objectPrototypeNames_def pingMessage_def
      statusMessage_def pongMessage_def siblingEnvelope_def pongFor_def emptyMessage_def)

lemma accepted_initially:
  "500 \<le> tNow ck \<Longrightarrow> accepted ck d opts (initialBus t0)"
  by (simp add: accepted_def rateLimited_def duplicateSend_def initialBus_def getProp_def
      elapsedLess_def)

lemma pingWith_fields:
  "receivedMessageIds (pingWith cb) = []"
  "sentMessageIds (pingWith cb) = [genMessageId 1000000 ''a'']"
  "pendingPings (pingWith cb) (genMessageId 1000000 ''a'') = Some (1000000, cb)"
  "callbackCalls (trace (pingWith cb)) = []"
  "timers (pingWith cb) =
     [(1000, InitialPing), (1005000, PingTimeout (genMessageId 1000000 ''a''))]"
proof -
  let ?opts = "defaultOptions\<lparr>callback := Some cb\<rparr>"
  have q: "hasDebug exampleFrame \<longrightarrow> plainAction pingMessage" by (simp add: plain_examples)
  have acc: "accepted (clockAt 1000000 ''a'') pingMessage ?opts (initialBus 0)"
    by (simp add: accepted_def rateLimited_def duplicateSend_def initialBus_def getProp_def
        elapsedLess_def clockAt_def objectPrototypeNames_def pingMessage_def actionKeyOf_def
        emptyMessage_def)
  have f: "fst (sendPrimary exampleFrame (clockAt 1000000 ''a'') pingMessage ?opts (initialBus 0)) =
      Inr (Some (genMessageId 1000000 ''a''))"
    using acc by (simp add: sendPrimary_quiet[OF q])
  have nf: "\<not> usesFallback pingMessage"
    by (rule usesFallback_ping) (simp add: pingMessage_def)
  have e: "pingWith cb = snd (sendPrimary exampleFrame (clockAt 1000000 ''a'') pingMessage ?opts (initialBus 0))"
    unfolding pingWith_def by (rule sendCross_plain_snd[OF nf])
  have i: "idTime (clockAt 1000000 ''a'') = 1000000" "idRandom (clockAt 1000000 ''a'') = ''a''"
    "tNow (clockAt 1000000 ''a'') = 1000000" by (simp_all add: clockAt_def)
  show "receivedMessageIds (pingWith cb) = []"
    unfolding e by (simp add: sendPrimary_received initialBus_def)
  show "sentMessageIds (pingWith cb) = [genMessageId 1000000 ''a'']"
    unfolding e using acc by (simp add: sendPrimary_ids i) (simp add: initialBus_def pushBounded_def)
  show "pendingPings (pingWith cb) (genMessageId 1000000 ''a'') = Some (1000000, cb)"
    unfolding e using f by (simp add: sendPrimary_pending i pingMessage_def)
  show "callbackCalls (trace (pingWith cb)) = []"
    unfolding pingWith_def by (simp add: initialBus_def)
  show "timers (pingWith cb) =
     [(1000, InitialPing), (1005000, PingTimeout (genMessageId 1000000 ''a''))]"
    unfolding e using f
    by (simp add: sendPrimary_timers i pingMessage_def) (simp add: initialBus_def defaultOptions_def)
qed

subsection \<open>The state a send leaves, as the next send reads it\<close>


lemma getProp_proto: "m ''__proto__'' = None \<Longrightarrow> getProp (setProp ''__proto__'' v m) ''__proto__'' = Inherited"
  by (simp add: getProp_def setProp_def objectPrototypeNames_def)


lemma hash_after_send:
  "accepted ck d opts s \<Longrightarrow>
   sentMessageHashes (snd (sendCrossDomainMessage cx ck d opts s)) (messageHash d) = Some (tNow ck)"
  by (simp add: sendCross_frame sendPrimary_hashes)


lemma sendCross_quiet:
  assumes "hasDebug cx \<longrightarrow> plainAction d"
  shows "fst (sendCrossDomainMessage cx ck d opts s) =
     (if \<not> accepted ck d opts s then Inr None
      else if usesFallback d then Inl ReferenceError
      else Inr (Some (genMessageId (idTime ck) (idRandom ck))))"
  by (simp add: sendCross_fst sendPrimary_quiet[OF assms])

lemma sendCross_posted:
  assumes "hasDebug cx \<longrightarrow> recordableAction d"
  shows "posted (trace (snd (sendCrossDomainMessage cx ck d opts s))) =
     posted (trace s) @
       (if accepted ck d opts s
        then [wireMessage cx (tNow ck) (genMessageId (idTime ck) (idRandom ck)) d] else [])"
proof (cases "accepted ck d opts s")
  case False
  then have "fst (sendPrimary cx ck d opts s) \<noteq> Inr (Some (genMessageId (idTime ck) (idRandom ck)))"
    using sendPrimary_returned by blast
  with False show ?thesis by (simp add: sendCross_frame sendPrimary_trace)
next
  case True
  have "fst (debugLog cx ck ''Sending cross-domain message:'' (ObjectData (action d) None) s) = None"
  proof (cases "hasDebug cx")
    case False
    then show ?thesis by (simp add: debugLog_without_collector)
  next
    case hd: True
    with assms have r: "recordableAction d" by simp
    show ?thesis
    proof (cases "truthyStr (action d)")
      case False
      then show ?thesis by (simp add: debugLog_unclassified classify_sending)
    next
      case t: True
      then obtain a where a: "action d = Some a" by (auto simp: truthyStr_def split: option.splits)
      with r have "a \<notin> set objectPrototypeNames" by (simp add: recordableAction_def)
      moreover have "classify ''Sending cross-domain message:'' (ObjectData (action d) None) = Some (Sent, a)"
        using t a by (simp add: classify_sending)
      ultimately show ?thesis by (intro debugLog_plain[where cat = Sent and act = a]) simp_all
    qed
  qed
  with True have "fst (sendPrimary cx ck d opts s) = Inr (Some (genMessageId (idTime ck) (idRandom ck)))"
    by (simp add: sendPrimary_fst accepted_def)
  with True show ?thesis by (simp add: sendCross_frame sendPrimary_trace)
qed

lemma plain_recordable: "plainAction d \<Longrightarrow> recordableAction d"
  by (simp add: plainAction_def recordableAction_def plainName_def split: option.splits)

lemma ids_after_send:
  "sentMessageIds (snd (sendCrossDomainMessage cx ck d opts s)) =
     (if accepted ck d opts s
      then pushBounded (genMessageId (idTime ck) (idRandom ck)) (sentMessageIds s)
      else sentMessageIds s)"
  by (simp add: sendCross_frame sendPrimary_ids)

subsection \<open>Statistics while only sends are recorded\<close>

lemma initial_stats: "initialStats = statsWith [] blankStorage []"
  by (simp add: initialStats_def statsWith_def blankStorage_def)

lemma reset_initial: "resetDebugStats initialStats = statsWith [] zeroStorage []"
  by (simp add: resetDebugStats_def initialStats_def statsWith_def zeroStorage_def
      resetEntries_def fullEntries_def)

lemma statsWith_circ [simp]:
  "(statsWith acts stored circ)\<lparr>circularPaths := circ'\<rparr> = statsWith acts stored circ'"
  by (simp add: statsWith_def)

lemma record_first:
  "act \<notin> set objectPrototypeNames \<Longrightarrow>
   recordMessageStat t Sent act dat (statsWith [] stored circ) =
     (None, statsWith [(act, bumpEntry t dat 0 [] [])] stored circ)"
  by (simp add: recordMessageStat_def recordInto_def statsWith_def)

lemma record_next:
  "recordMessageStat t Sent act dat (statsWith [(act, Entry c ts ds)] stored circ) =
     (None, statsWith [(act, bumpEntry t dat c ts ds)] stored circ)"
  by (simp add: recordMessageStat_def recordInto_def statsWith_def)

lemma record_inherited:
  "act \<in> set objectPrototypeNames \<Longrightarrow> map_of (stSent c) act = None \<Longrightarrow>
   recordMessageStat t Sent act dat c =
     (Some TypeError, c\<lparr>protoCount := protoCount c \<or> act = ''__proto__''\<rparr>)"
  by (simp add: recordMessageStat_def recordInto_def)

lemma recordedSends_next:
  "length ts0 + length ts \<le> 50 \<Longrightarrow>
   \<exists>ds'. recordedSends ts act (statsWith [(act, Entry c ts0 ds)] stored circ) =
          statsWith [(act, Entry (c + length ts) (ts0 @ ts) ds')] stored circ"
proof (induction ts arbitrary: c ts0 ds)
  case Nil
  show ?case by (rule exI[of _ ds]) (simp add: recordedSends_def)
next
  case (Cons t ts)
  have len: "length (ts0 @ [t]) + length ts \<le> 50" using Cons.prems by simp
  have step: "recordedSends (t # ts) act (statsWith [(act, Entry c ts0 ds)] stored circ) =
      recordedSends ts act (statsWith [(act, Entry (c + 1) (ts0 @ [t])
        (shiftOver 20 (ds @ [(t, PointObject (Some act) None)])))] stored circ)"
    using Cons.prems by (simp add: recordedSends_def record_next bumpEntry_def shiftOver_def)
  from Cons.IH[OF len, of "c + 1" "shiftOver 20 (ds @ [(t, PointObject (Some act) None)])"]
  show ?case unfolding step by simp
qed

lemma recordedSends_fresh:
  assumes "ts \<noteq> []" and "length ts \<le> 50" and "act \<notin> set objectPrototypeNames"
  shows "\<exists>ds'. recordedSends ts act (statsWith [] stored circ) =
           statsWith [(act, Entry (length ts) ts ds')] stored circ"
proof -
  from assms(1) obtain t rest where ts: "ts = t # rest" by (cases ts) auto
  have step: "recordedSends (t # rest) act (statsWith [] stored circ) =
      recordedSends rest act (statsWith [(act, Entry 1 [t]
        [(t, PointObject (Some act) None)])] stored circ)"
    by (simp add: recordedSends_def record_first[OF assms(3)] bumpEntry_def shiftOver_def)
  have "length [t] + length rest \<le> 50" using assms(2) ts by simp
  from recordedSends_next[OF this, of act 1 "[(t, PointObject (Some act) None)]" stored circ]
  show ?thesis unfolding ts step by simp
qed

lemma recordedSends_inherited:
  assumes "act \<in> set objectPrototypeNames" and "act \<noteq> ''__proto__''"
  shows "recordedSends ts act (statsWith [] stored circ) = statsWith [] stored circ"
proof (induction ts)
  case Nil
  show ?case by (simp add: recordedSends_def)
next
  case (Cons t ts)
  have "recordMessageStat t Sent act dat (statsWith [] stored circ) =
      (Some TypeError, statsWith [] stored circ)" for dat
    using assms by (simp add: recordMessageStat_def recordInto_def statsWith_def)
  with Cons show ?case by (simp add: recordedSends_def)
qed

lemmas report_defs = getMessageStatsReport_def reportCategory_def reportAction_def
  subObject_def numOr0_def statsWith_def zeroStorage_def blankStorage_def rateOf_def
  categories_def fullEntries_def

lemma report_rate:
  "rateOf (getMessageStatsReport now (statsWith [(act, Entry c ts ds)] zeroStorage circ)) act ''sent'' =
     Some (of_nat (length (filter (\<lambda>t. now - t < 5000) ts)) / 5)"
  by (simp add: report_defs Let_def)

lemma report_raises:
  "getMessageStatsReport now (statsWith [(act, Entry c ts ds)] blankStorage circ) = Inl TypeError"
  "getMessageStatsReport now (statsWith [] blankStorage circ) = Inl TypeError"
  by (simp_all add: report_defs Let_def)

lemma foldE_error:
  assumes "\<And>r x e. f r x = Inl e \<Longrightarrow> e = TypeError"
  shows "foldE f xs r = Inl e \<Longrightarrow> e = TypeError"
proof (induction xs arbitrary: r)
  case Nil
  then show ?case by simp
next
  case (Cons x xs)
  show ?case
  proof (cases "f r x")
    case (Inl e')
    with Cons.prems assms[of r x e'] show ?thesis by simp
  next
    case (Inr r')
    with Cons.prems Cons.IH[of r'] show ?thesis by simp
  qed
qed

lemma reportAction_error: "reportAction now cat r ae = Inl e \<Longrightarrow> e = TypeError"
  by (simp add: reportAction_def Let_def split: statEntry.splits entry.splits)

lemma reportCategory_error: "reportCategory now polluted r ca = Inl e \<Longrightarrow> e = TypeError"
proof -
  assume a: "reportCategory now polluted r ca = Inl e"
  show ?thesis
  proof (cases "foldE (reportAction now (fst ca)) (snd ca)
                  (r\<lparr>summary := AList.update (fst ca) 0 (summary r)\<rparr>)")
    case (Inl e')
    with a have "e = e'" by (simp add: reportCategory_def)
    moreover from Inl have "e' = TypeError"
      by (rule foldE_error[rotated]) (rule reportAction_error)
    ultimately show ?thesis by simp
  next
    case (Inr r')
    with a show ?thesis by (simp add: reportCategory_def split: if_splits)
  qed
qed

lemma report_polluted:
  assumes "protoCount c" and "map_of (stLocalStorage c) ''count'' = None"
  shows "getMessageStatsReport now c = Inl TypeError"
proof -
  have never: "reportCategory now True r (''localStorage'', stLocalStorage c) \<noteq> Inr r'" for r r'
    using assms(2) by (simp add: reportCategory_def split: sum.splits)
  have "foldE (reportCategory now True) (categories c) r \<noteq> Inr r'" for r r'
    using never by (simp add: categories_def split: sum.splits)
  then obtain e where e: "foldE (reportCategory now True) (categories c)
      \<lparr>summary = [], byAction = [], messageRate = [], loops = length (circularPaths c),
       lastCircularPath = (if circularPaths c = [] then None else Some (last (circularPaths c)))\<rparr> = Inl e"
    by (metis sum.exhaust)
  then have "e = TypeError" by (rule foldE_error[rotated]) (rule reportCategory_error)
  with e show ?thesis using assms(1) by (simp add: getMessageStatsReport_def)
qed

lemmas analysis_defs = analyzeMessageFlow_def analyzeRates_def analyzeRate_def
  analyzeBalance_def analyzeLoops_def ratingOf_def

lemma analysis_rating:
  "length (filter (\<lambda>t. now - t < 5000) ts) \<le> 25 \<Longrightarrow> length circ \<le> 5 \<Longrightarrow>
   ratingOf (analyzeMessageFlow now (statsWith [(act, Entry c ts ds)] zeroStorage circ)) =
     Some ''normal''"
  by (simp add: analysis_defs report_defs Let_def)

lemma recordedSends_shape:
  "\<exists>c ts' ds'. recordedSends ts act (statsWith [(act, Entry c0 ts0 ds0)] stored circ) =
      statsWith [(act, Entry c ts' ds')] stored circ \<and>
      (length ts0 \<le> 50 \<longrightarrow> length ts' \<le> 50)"
proof (induction ts arbitrary: c0 ts0 ds0)
  case Nil
  show ?case by (rule exI[of _ c0], rule exI[of _ ts0], rule exI[of _ ds0]) (simp add: recordedSends_def)
next
  case (Cons t ts)
  have step: "recordedSends (t # ts) act (statsWith [(act, Entry c0 ts0 ds0)] stored circ) =
      recordedSends ts act (statsWith [(act, Entry (c0 + 1) (shiftOver 50 (ts0 @ [t]))
        (shiftOver 20 (ds0 @ [(t, PointObject (Some act) None)])))] stored circ)"
    by (simp add: recordedSends_def record_next bumpEntry_def)
  have len: "length ts0 \<le> 50 \<Longrightarrow> length (shiftOver 50 (ts0 @ [t])) \<le> 50"
    by (simp add: shiftOver_def)
  from Cons.IH[of "c0 + 1" "shiftOver 50 (ts0 @ [t])"
      "shiftOver 20 (ds0 @ [(t, PointObject (Some act) None)])"] len
  show ?case unfolding step by blast
qed

lemma recordedSends_shape_fresh:
  assumes "act \<notin> set objectPrototypeNames"
  shows "recordedSends ts act (statsWith [] stored circ) = statsWith [] stored circ \<or>
   (\<exists>c ts' ds'. recordedSends ts act (statsWith [] stored circ) =
      statsWith [(act, Entry c ts' ds')] stored circ \<and> length ts' \<le> 50)"
proof (cases ts)
  case Nil
  then show ?thesis by (simp add: recordedSends_def)
next
  case (Cons t rest)
  have step: "recordedSends (t # rest) act (statsWith [] stored circ) =
      recordedSends rest act (statsWith [(act, Entry 1 [t]
        [(t, PointObject (Some act) None)])] stored circ)"
    by (simp add: recordedSends_def record_first[OF assms] bumpEntry_def shiftOver_def)
  from recordedSends_shape[of rest act 1 "[t]" "[(t, PointObject (Some act) None)]" stored circ]
  show ?thesis unfolding Cons step by auto
qed

lemma analysis_rating_bounded:
  "length (filter (\<lambda>t. now - t < 5000) ts) \<le> 50 \<Longrightarrow>
   ratingOf (analyzeMessageFlow now (statsWith [(act, Entry c ts ds)] zeroStorage circ)) =
     Some (if 5 < length circ then ''problematic''
           else if 25 < length (filter (\<lambda>t. now - t < 5000) ts) then ''concerning''
           else ''normal'')"
  by (simp add: analysis_defs report_defs Let_def)

lemma analysis_rating_empty:
  "ratingOf (analyzeMessageFlow now (statsWith [] zeroStorage circ)) =
     Some (if 5 < length circ then ''problematic'' else ''normal'')"
  by (simp add: analysis_defs report_defs Let_def)

section \<open>The claims\<close>

subsection \<open>C1: one envelope arriving on both channels\<close>




subsection \<open>C2: loop detection on receive\<close>




subsection \<open>C3: the rate limiter of the primary channel\<close>




subsection \<open>C4: suppression of identical content\<close>

text \<open>
  Claim C4 says that of two sends of the same action and payload within 2000 ms the
  first yields an id and the second \<^verbatim>\<open>null\<close>. For the three actions that the wrapper of
  line 1636 also puts on the storage channel the first half fails: the inner send
  function accepts the message, records its id and posts it, and the wrapper then
  reaches a call of \<^verbatim>\<open>debugLog\<close> (line 1688, and line 1690 in the \<^verbatim>\<open>catch\<close>), which is not
  in scope in \<^verbatim>\<open>setupFallbackCommunication\<close>; the caller gets a ReferenceError instead
  of the id. Here \<^verbatim>\<open>updateStatus\<close> with \<^verbatim>\<open>enabled: true\<close> is sent twice, 1500 ms apart; the
  second send is suppressed as the claim says.
\<close>

theorem first_status_send_raises:
  "fst (sendCrossDomainMessage exampleFrame (clockAt 1000000 ''a'') statusMessage defaultOptions
          (initialBus 0)) = Inl ReferenceError \<and>
   fst (sendPrimary exampleFrame (clockAt 1000000 ''a'') statusMessage defaultOptions
          (initialBus 0)) = Inr (Some (genMessageId 1000000 ''a'')) \<and>
   posted (trace (snd (sendCrossDomainMessage exampleFrame (clockAt 1000000 ''a'') statusMessage
                         defaultOptions (initialBus 0)))) =
     [wireMessage exampleFrame 1000000 (genMessageId 1000000 ''a'') statusMessage] \<and>
   fst (sendCrossDomainMessage exampleFrame (clockAt 1001500 ''b'') statusMessage defaultOptions
          (snd (sendCrossDomainMessage exampleFrame (clockAt 1000000 ''a'') statusMessage
                  defaultOptions (initialBus 0)))) = Inr None"
proof -
  let ?s1 = "snd (sendCrossDomainMessage exampleFrame (clockAt 1000000 ''a'') statusMessage
                  defaultOptions (initialBus 0))"
  have q: "hasDebug exampleFrame \<longrightarrow> plainAction statusMessage" by (simp add: plain_examples)
  have r: "hasDebug exampleFrame \<longrightarrow> recordableAction statusMessage"
    by (simp add: plain_examples plain_recordable)
  have f: "usesFallback statusMessage"
    by (simp add: usesFallback_def statusMessage_def fallbackActions_def)
  have acc: "accepted (clockAt 1000000 ''a'') statusMessage defaultOptions (initialBus 0)"
    by (rule accepted_initially) simp
  have a: "fst (sendCrossDomainMessage exampleFrame (clockAt 1000000 ''a'') statusMessage
      defaultOptions (initialBus 0)) = Inl ReferenceError"
    using acc f by (simp add: sendCross_quiet[OF q])
  have b: "fst (sendPrimary exampleFrame (clockAt 1000000 ''a'') statusMessage defaultOptions
      (initialBus 0)) = Inr (Some (genMessageId 1000000 ''a''))"
    using acc by (simp add: sendPrimary_quiet[OF q])
  have c: "posted (trace ?s1) =
      [wireMessage exampleFrame 1000000 (genMessageId 1000000 ''a'') statusMessage]"
    using acc by (simp add: sendCross_posted[OF r])
  have "sentMessageHashes ?s1 (messageHash statusMessage) = Some 1000000"
    using hash_after_send[OF acc, of exampleFrame] by simp
  then have "duplicateSend defaultOptions 1001500 ?s1 (messageHash statusMessage)"
    by (simp add: duplicateSend_def defaultOptions_def)
  then have "\<not> accepted (clockAt 1001500 ''b'') statusMessage defaultOptions ?s1"
    by (simp add: accepted_def)
  then have d: "fst (sendCrossDomainMessage exampleFrame (clockAt 1001500 ''b'') statusMessage
      defaultOptions ?s1) = Inr None"
    by (simp add: sendCross_quiet[OF q])
  from a b c d show ?thesis by simp
qed

subsection \<open>C5: which sends are recorded in the list of sent ids\<close>




subsection \<open>C6: the origin validator\<close>

text \<open>
  Claim C6 says that an origin is accepted exactly when it is the context's own or its
  host is one of the listed Pearson domains or a subdomain of one. The code accepts
  more: any origin that contains \<^verbatim>\<open>mylab.pearson.com\<close> anywhere (line 1015), and any
  origin whose text merely ends with a listed domain (the dot of the pattern is
  optional). The two origins below are accepted by \<open>isPearsonOrigin\<close> and are neither the
  context's own origin nor on the allow-list as the claim words it.
\<close>

theorem isPearsonOrigin_accepts_foreign_hosts:
  "isPearsonOrigin ''https://mylab.pearson.com'' ''https://mylab.pearson.com.evil.example'' \<and>
   isPearsonOrigin ''https://mylab.pearson.com'' ''https://evilpearson.com'' \<and>
   \<not> spec_isTrusted ''https://mylab.pearson.com'' ''https://mylab.pearson.com.evil.example'' \<and>
   \<not> spec_isTrusted ''https://mylab.pearson.com'' ''https://evilpearson.com''"
  by (simp add: isPearsonOrigin_def spec_isTrusted_def allowListed_def hostOf_def hostIsOrUnder_def
      startsWith_def endsWith_def patternTest_def matchAfterScheme_def isLineTerminator_def
      PEARSON_DOMAIN_PATTERNS_def)

subsection \<open>C7: the entry of an unanswered ping\<close>

text \<open>
  Claim C7 says that the pending entry of a ping is purged once a timeout chosen by the
  caller has passed, and is gone 150 ms after a ping with a timeout of 100 ms. The send
  function reads six options (lines 1312-1320); a timeout is not among them, and the
  clean-up timer is set for 5000 ms (line 1408). Here a ping with a callback is sent at
  time 1000000; at time 1000150, whichever of the two pending timers the event loop
  tries, the entry is still there.
\<close>

theorem ping_still_pending_after_150ms:
  "pendingPings (fireTimer exampleFrame idlePage (clockAt 1000150 ''z'') 1000150 0 (pingWith onReply))
     (genMessageId 1000000 ''a'') = Some (1000000, onReply) \<and>
   pendingPings (fireTimer exampleFrame idlePage (clockAt 1000150 ''z'') 1000150 1 (pingWith onReply))
     (genMessageId 1000000 ''a'') = Some (1000000, onReply)"
proof -
  let ?s = "(pingWith onReply)\<lparr>timers := [(1005000, PingTimeout (genMessageId 1000000 ''a''))]\<rparr>"
  have first: "fireTimer exampleFrame idlePage (clockAt 1000150 ''z'') 1000150 0 (pingWith onReply) =
      snd (sendCrossDomainMessage exampleFrame (clockAt 1000150 ''z'') pingMessage
             (defaultOptions\<lparr>retry := True\<rparr>) ?s)"
    by (simp add: fireTimer_def pingWith_fields runTask_def pingMessage_def)
  have "pendingPings (snd (sendCrossDomainMessage exampleFrame (clockAt 1000150 ''z'') pingMessage
             (defaultOptions\<lparr>retry := True\<rparr>) ?s)) (genMessageId 1000000 ''a'') =
      Some (1000000, onReply)"
    by (simp add: sendCross_frame sendPrimary_pending defaultOptions_def pingWith_fields)
  moreover have "fireTimer exampleFrame idlePage (clockAt 1000150 ''z'') 1000150 1 (pingWith onReply) =
      pingWith onReply"
    by (simp add: fireTimer_def pingWith_fields)
  ultimately show ?thesis by (simp add: first pingWith_fields)
qed

text \<open>
  Claim C7, amended. A ping sent with a callback is entered under its message id with
  the send time and the callback, and a clean-up timer is set for 5000 ms after the
  send, whatever the caller passes. Sending does not call the callback. The timer
  cannot run before it is due: tried earlier, it changes nothing. When it runs, the
  entry is removed and the callback is not called.
\<close>

theorem ping_entry_cleared_by_fixed_timer:
  assumes "fst (sendCrossDomainMessage cx ck d opts s) = Inr (Some mid)"
      and "action d = Some ''ping''"
      and "callback opts = Some cb"
      and "i < length (timers sb)"
      and "timers sb ! i = (tNow ck + 5000, PingTimeout mid)"
      and "t < tNow ck + 5000"
      and "tNow ck + 5000 \<le> tb"
  shows "pendingPings (snd (sendCrossDomainMessage cx ck d opts s)) mid = Some (tNow ck, cb) \<and>
         (tNow ck + 5000, PingTimeout mid) \<in> set (timers (snd (sendCrossDomainMessage cx ck d opts s))) \<and>
         callbackCalls (trace (snd (sendCrossDomainMessage cx ck d opts s))) = callbackCalls (trace s) \<and>
         fireTimer cx pg ckb t i sb = sb \<and>
         pendingPings (fireTimer cx pg ckb tb i sb) mid = None \<and>
         callbackCalls (trace (fireTimer cx pg ckb tb i sb)) = callbackCalls (trace sb)"
proof -
  have nf: "\<not> usesFallback d" using assms(2) by (rule usesFallback_ping)
  have acc: "fst (sendPrimary cx ck d opts s) = Inr (Some mid)"
    using assms(1) nf by (simp add: sendCross_fst split: sum.splits option.splits)
  then have mid: "mid = genMessageId (idTime ck) (idRandom ck)"
    using sendPrimary_returned by blast
  have s1: "snd (sendCrossDomainMessage cx ck d opts s) = snd (sendPrimary cx ck d opts s)"
    using nf by (rule sendCross_plain_snd)
  have a: "pendingPings (snd (sendCrossDomainMessage cx ck d opts s)) mid = Some (tNow ck, cb)"
    using acc assms(2,3) mid by (simp add: s1 sendPrimary_pending)
  have b: "(tNow ck + 5000, PingTimeout mid) \<in> set (timers (snd (sendCrossDomainMessage cx ck d opts s)))"
    using acc assms(2,3) mid by (simp add: s1 sendPrimary_timers)
  have c: "fireTimer cx pg ckb t i sb = sb"
    using assms(4,5,6) by (simp add: fireTimer_not_due)
  have f: "fireTimer cx pg ckb tb i sb =
      runTask cx pg ckb (PingTimeout mid) (sb\<lparr>timers := take i (timers sb) @ drop (Suc i) (timers sb)\<rparr>)"
    using assms(4,5,7) by (simp add: fireTimer_due)
  show ?thesis using a b c by (simp add: f runTask_PingTimeout_pending runTask_PingTimeout_trace)
qed

text \<open>The premises of the theorem hold for the ping of the example and its timer.\<close>

theorem ping_entry_cleared_by_fixed_timer_witness:
  "pendingPings (pingWith onReply) (genMessageId 1000000 ''a'') = Some (1000000, onReply) \<and>
   fireTimer exampleFrame idlePage (clockAt 1000150 ''z'') 1000150 1 (pingWith onReply) =
     pingWith onReply \<and>
   pendingPings (fireTimer exampleFrame idlePage (clockAt 1005000 ''z'') 1005000 1 (pingWith onReply))
     (genMessageId 1000000 ''a'') = None"
proof -
  have q: "hasDebug exampleFrame \<longrightarrow> plainAction pingMessage" by (simp add: plain_examples)
  have nf: "\<not> usesFallback pingMessage" by (rule usesFallback_ping) (simp add: pingMessage_def)
  have acc: "accepted (clockAt 1000000 ''a'') pingMessage (defaultOptions\<lparr>callback := Some onReply\<rparr>)
      (initialBus 0)" by (rule accepted_initially) simp
  have h1: "fst (sendCrossDomainMessage exampleFrame (clockAt 1000000 ''a'') pingMessage
      (defaultOptions\<lparr>callback := Some onReply\<rparr>) (initialBus 0)) =
      Inr (Some (genMessageId 1000000 ''a''))"
    using acc nf by (simp add: sendCross_quiet[OF q])
  have h2: "action pingMessage = Some ''ping''" by (simp add: pingMessage_def)
  have h3: "callback (defaultOptions\<lparr>callback := Some onReply\<rparr>) = Some onReply" by simp
  have h4: "1 < length (timers (pingWith onReply))" by (simp add: pingWith_fields)
  have h5: "timers (pingWith onReply) ! 1 =
      (tNow (clockAt 1000000 ''a'') + 5000, PingTimeout (genMessageId 1000000 ''a''))"
    by (simp add: pingWith_fields)
  have h6: "1000150 < tNow (clockAt 1000000 ''a'') + 5000" by simp
  have h7: "tNow (clockAt 1000000 ''a'') + 5000 \<le> 1005000" by simp
  from ping_entry_cleared_by_fixed_timer[OF h1 h2 h3 h4 h5 h6 h7, where pg = idlePage and ckb = "clockAt 1000150 ''z''"]
       ping_entry_cleared_by_fixed_timer[OF h1 h2 h3 h4 h5 h6 h7, where pg = idlePage and ckb = "clockAt 1005000 ''z''"]
  show ?thesis by (simp add: pingWith_def)
qed

subsection \<open>C8: a reply to a ping\<close>

text \<open>
  Claim C8 says that for every outstanding ping a reply invokes the callback exactly
  once and clears the pending entry, so that a second reply invokes nothing. The
  listener calls the callback first and deletes the entry afterwards (lines 1279-1283),
  both inside the \<^verbatim>\<open>try\<close> of line 1119: when the callback throws, the \<^verbatim>\<open>delete\<close> is not
  reached, the entry stays, and the next reply calls the callback again. Here a ping is
  sent with a callback that throws, and two replies arrive.
\<close>

theorem throwing_callback_called_again:
  "pendingPings (snd (onMessage exampleFrame idlePage (clockAt 1000060 ''x'')
        \<lparr>evOrigin = peerOrigin,
         evData = Some (pongFor (genMessageId 1000000 ''a'') (genMessageId 1000050 ''p''))\<rparr>
        (pingWith failingReply))) (genMessageId 1000000 ''a'') = Some (1000000, failingReply) \<and>
   callbackCalls (trace (snd (onMessage exampleFrame idlePage (clockAt 1000070 ''y'')
     \<lparr>evOrigin = peerOrigin,
      evData = Some (pongFor (genMessageId 1000000 ''a'') (genMessageId 1000060 ''q''))\<rparr>
     (snd (onMessage exampleFrame idlePage (clockAt 1000060 ''x'')
        \<lparr>evOrigin = peerOrigin,
         evData = Some (pongFor (genMessageId 1000000 ''a'') (genMessageId 1000050 ''p''))\<rparr>
        (pingWith failingReply)))))) =
   [(''failingReply'', pongFor (genMessageId 1000000 ''a'') (genMessageId 1000050 ''p'')),
    (''failingReply'', pongFor (genMessageId 1000000 ''a'') (genMessageId 1000060 ''q''))]"
proof -
  let ?pong = "pongFor (genMessageId 1000000 ''a'') (genMessageId 1000050 ''p'')"
  let ?pongb = "pongFor (genMessageId 1000000 ''a'') (genMessageId 1000060 ''q'')"
  let ?ev = "\<lparr>evOrigin = peerOrigin, evData = Some ?pong\<rparr>"
  let ?evb = "\<lparr>evOrigin = peerOrigin, evData = Some ?pongb\<rparr>"
  let ?s1 = "snd (onMessage exampleFrame idlePage (clockAt 1000060 ''x'') ?ev (pingWith failingReply))"
  have o: "isPearsonOrigin (ctxOrigin exampleFrame) peerOrigin"
    by (simp add: isPearsonOrigin_def startsWith_def peerOrigin_def)
  have q: "hasDebug exampleFrame \<longrightarrow> plainAction (pongFor a b)" for a b
    by (simp add: plain_examples)
  have h1: "fst (onMessage exampleFrame idlePage (clockAt 1000060 ''x'') ?ev (pingWith failingReply)) =
      Handled"
    using o _ _ _ _ _ q
    by (rule onMessage_fresh_handled[where m = "genMessageId 1000050 ''p''"])
       (simp_all add: pongFor_def pingWith_fields genMessageId_inj loopBlocked_iff)
  let ?t0 = "emit [Dispatch ?pong] (noted ?pong (pingWith failingReply)
      (snd (receivedLog exampleFrame (clockAt 1000060 ''x'') ?pong (pingWith failingReply))))"
  have s1: "?s1 = handlePong ?pong ?t0"
    by (subst onMessage_handled[OF h1]) (simp add: handleMessage_pong pongFor_def)
  have p0: "pendingPings ?t0 (genMessageId 1000000 ''a'') = Some (1000000, failingReply)"
    by (simp add: emit_def pingWith_fields)
  have r: "replyTo ?pong = Some (genMessageId 1000000 ''a'')" "genMessageId 1000000 ''a'' \<noteq> []"
    by (simp_all add: pongFor_def genMessageId_def)
  have n: "cbName failingReply = ''failingReply''" "cbThrows failingReply x" for x
    by (simp_all add: failingReply_def)
  have ct0: "callbackCalls (trace ?t0) = []"
    by (simp add: emit_def pingWith_fields)
  from handlePong_pending[OF r p0]
  have "callbackCalls (trace (handlePong ?pong ?t0)) = callbackCalls (trace ?t0) @ [(cbName failingReply, ?pong)]"
    and "pendingPings (handlePong ?pong ?t0) = pendingPings ?t0"
    by (simp_all add: n)
  then have c1: "callbackCalls (trace ?s1) = [(''failingReply'', ?pong)]"
    and p1: "pendingPings ?s1 (genMessageId 1000000 ''a'') = Some (1000000, failingReply)"
    unfolding s1 by (simp_all only: ct0 n p0 append_Nil)
  have rec1: "receivedMessageIds ?s1 = [genMessageId 1000050 ''p'']"
    using onMessage_records_id[OF h1, of ?pong "genMessageId 1000050 ''p''"]
    by (simp add: pongFor_def genMessageId_def pingWith_fields pushBounded_def)
  have sent1: "sentMessageIds ?s1 = [genMessageId 1000000 ''a'']"
    unfolding s1 by (simp add: handlePong_frame emit_def pingWith_fields)
  have h2: "fst (onMessage exampleFrame idlePage (clockAt 1000070 ''y'') ?evb ?s1) = Handled"
  proof (rule onMessage_fresh_handled[where m = "genMessageId 1000060 ''q''", OF o _ _ _ _ _ q])
    show "msgSource ?pongb = Some ''pearson_ai_solver''" by (simp add: pongFor_def)
    show "messageId ?pongb = Some (genMessageId 1000060 ''q'')" by (simp add: pongFor_def)
    show "genMessageId 1000060 ''q'' \<notin> set (receivedMessageIds ?s1)"
      by (simp add: rec1 genMessageId_inj)
    show "genMessageId 1000060 ''q'' \<notin> set (sentMessageIds ?s1)"
      by (simp add: sent1 genMessageId_inj)
    show "\<not> loopBlocked exampleFrame ?pongb" by (simp add: pongFor_def loopBlocked_iff)
  qed
  let ?t1 = "emit [Dispatch ?pongb] (noted ?pongb ?s1
      (snd (receivedLog exampleFrame (clockAt 1000070 ''y'') ?pongb ?s1)))"
  have s2: "snd (onMessage exampleFrame idlePage (clockAt 1000070 ''y'') ?evb ?s1) =
      handlePong ?pongb ?t1"
    by (subst onMessage_handled[OF h2]) (simp add: handleMessage_pong pongFor_def)
  have p1': "pendingPings ?t1 (genMessageId 1000000 ''a'') = Some (1000000, failingReply)"
    by (simp add: emit_def p1)
  have rb: "replyTo ?pongb = Some (genMessageId 1000000 ''a'')"
    by (simp add: pongFor_def)
  have ct1: "callbackCalls (trace ?t1) = callbackCalls (trace ?s1)"
    by (simp add: emit_def)
  from handlePong_pending[OF rb r(2) p1']
  have "callbackCalls (trace (handlePong ?pongb ?t1)) =
      callbackCalls (trace ?t1) @ [(cbName failingReply, ?pongb)]" by simp
  then have c2: "callbackCalls (trace (snd (onMessage exampleFrame idlePage (clockAt 1000070 ''y'') ?evb ?s1))) =
      [(''failingReply'', ?pong), (''failingReply'', ?pongb)]"
    unfolding s2 by (simp only: ct1 c1 n append_Cons append_Nil)
  from p1 c2 show ?thesis by simp
qed



subsection \<open>C9: the rate and the rating after 11 sends\<close>

text \<open>
  Claim C9 says that after 11 sends of one action within a second the report shows a
  rate above 10 per second and the analysis rates the flow \<^verbatim>\<open>problematic\<close>. The report
  divides the number of time stamps of the last 5 seconds by 5 (lines 126-133). Here 11
  sends of \<^verbatim>\<open>ping\<close> are recorded within 900 ms on statistics that were reset before; the
  rate is 11/5, which is not above 10, and the rating is \<^verbatim>\<open>normal\<close>. On statistics that
  were never reset the report is not produced at all: the loop over the category
  \<^verbatim>\<open>localStorage\<close> meets the blank entries of lines 14-17 and raises a TypeError.
\<close>

theorem eleven_sends_not_problematic:
  "rateOf (getMessageStatsReport 1001000
             (recordedSends burst ''ping'' (resetDebugStats initialStats))) ''ping'' ''sent'' =
     Some (11 / 5) \<and>
   \<not> (10 :: rat) < 11 / 5 \<and>
   ratingOf (analyzeMessageFlow 1001000
               (recordedSends burst ''ping'' (resetDebugStats initialStats))) = Some ''normal'' \<and>
   getMessageStatsReport 1001000 (recordedSends burst ''ping'' initialStats) = Inl TypeError"
proof -
  have ne: "burst \<noteq> []" and le: "length burst \<le> 50" by (simp_all add: burst_def)
  have pl: "''ping'' \<notin> set objectPrototypeNames" by (simp add: objectPrototypeNames_def)
  from recordedSends_fresh[OF ne le pl, of zeroStorage "[]"] obtain ds' where
    st: "recordedSends burst ''ping'' (resetDebugStats initialStats) =
           statsWith [(''ping'', Entry (length burst) burst ds')] zeroStorage []"
    by (auto simp: reset_initial)
  from recordedSends_fresh[OF ne le pl, of blankStorage "[]"] obtain ds'' where
    st': "recordedSends burst ''ping'' initialStats =
           statsWith [(''ping'', Entry (length burst) burst ds'')] blankStorage []"
    by (auto simp: initial_stats)
  have a: "rateOf (getMessageStatsReport 1001000
      (recordedSends burst ''ping'' (resetDebugStats initialStats))) ''ping'' ''sent'' =
      Some (11 / 5)"
    unfolding st report_rate by (simp add: burst_def)
  have b: "ratingOf (analyzeMessageFlow 1001000
      (recordedSends burst ''ping'' (resetDebugStats initialStats))) = Some ''normal''"
    unfolding st by (rule analysis_rating) (simp_all add: burst_def)
  have c: "getMessageStatsReport 1001000 (recordedSends burst ''ping'' initialStats) =
      Inl TypeError"
    unfolding st' by (rule report_raises)
  from a b c show ?thesis by simp
qed

text \<open>
  Claim C9, amended. After 11 sends of one action are recorded on statistics that were
  reset before (the action being none of the names that every object inherits, under
  which the collector records nothing), a report taken while all 11 lie in the last 5
  seconds gives that action the rate 11/5 per second, and the flow analysis, with at
  most 5 loops on record, rates the flow \<^verbatim>\<open>normal\<close>.
\<close>

theorem eleven_sends_rate_and_rating:
  assumes "length ts = 11" and "list_all (\<lambda>t. now - t < 5000) ts" and "length circ \<le> 5"
      and "act \<notin> set objectPrototypeNames"
  shows "rateOf (getMessageStatsReport now
                   ((recordedSends ts act (resetDebugStats initialStats))
                      \<lparr>circularPaths := circ\<rparr>)) act ''sent'' =
           Some (11 / 5) \<and>
         ratingOf (analyzeMessageFlow now
                     ((recordedSends ts act (resetDebugStats initialStats))
                        \<lparr>circularPaths := circ\<rparr>)) = Some ''normal''"
proof -
  have ne: "ts \<noteq> []" and le: "length ts \<le> 50" using assms(1) by auto
  from recordedSends_fresh[OF ne le assms(4), of zeroStorage "[]"] obtain ds' where
    st: "recordedSends ts act (resetDebugStats initialStats) =
           statsWith [(act, Entry (length ts) ts ds')] zeroStorage []"
    by (auto simp: reset_initial)
  have all: "filter (\<lambda>t. now - t < 5000) ts = ts"
    using assms(2) by (simp add: list_all_iff)
  show ?thesis
    using assms(1,3) by (simp add: st report_rate analysis_rating all)
qed

text \<open>The premises of the theorem hold for the 11 sends of the example.\<close>

theorem eleven_sends_rate_and_rating_witness:
  "rateOf (getMessageStatsReport 1001000
             ((recordedSends burst ''ping'' (resetDebugStats initialStats))
                \<lparr>circularPaths := []\<rparr>)) ''ping'' ''sent'' =
     Some (11 / 5) \<and>
   ratingOf (analyzeMessageFlow 1001000
               ((recordedSends burst ''ping'' (resetDebugStats initialStats))
                  \<lparr>circularPaths := []\<rparr>)) = Some ''normal''"
proof -
  have h1: "length burst = 11" by (simp add: burst_def)
  have h2: "list_all (\<lambda>t. 1001000 - t < 5000) burst" by (simp add: burst_def)
  have h3: "length ([] :: circularPath list) \<le> 5" by simp
  have h4: "''ping'' \<notin> set objectPrototypeNames" by (simp add: objectPrototypeNames_def)
  from eleven_sends_rate_and_rating[OF h1 h2 h3 h4] show ?thesis .
qed

subsection \<open>C10: retries\<close>

text \<open>
  Claim C10. A send with \<^verbatim>\<open>retry\<close> set and a positive \<^verbatim>\<open>retryCount\<close> that passes the rate
  limiter and the content check sets a timer that sends the same data again with one
  retry less and with the duplicate check and the rate limiter skipped. When the timer
  runs, the retry is never rejected: it posts the data under the id generated from its
  own clock and random readings, and that id equals the original's only if both
  readings are the same. A receiver that has not seen the new id and did not send it
  itself handles the retried envelope, so it is dispatched again, whether or not the
  receiver handled the original. Where the collector is loaded, in the sender or in the
  receiver, the action is taken not to be a name that every object inherits: a send of
  such an action raises an exception at the log of line 1389 and sets no timer, and a
  receiver drops it at the log of line 1141.
\<close>

theorem retry_posts_under_new_id:
  assumes "accepted ck d opts s"
      and "retry opts" and "0 < retryCount opts"
      and "hasDebug cx \<longrightarrow> recordableAction d"
      and "isPearsonOrigin (ctxOrigin rx) origin"
      and "genMessageId (idTime ckb) (idRandom ckb) \<notin> set (receivedMessageIds r)"
      and "genMessageId (idTime ckb) (idRandom ckb) \<notin> set (sentMessageIds r)"
      and "\<not> loopBlocked rx (wireMessage cx (tNow ckb) (genMessageId (idTime ckb) (idRandom ckb)) d)"
      and "hasDebug rx \<longrightarrow> recordableAction d"
  shows "(tNow ck + retryDelay opts, RetrySend d (retryOptions opts))
           \<in> set (timers (snd (sendCrossDomainMessage cx ck d opts s))) \<and>
         skipDuplicateCheck (retryOptions opts) \<and> skipRateLimiting (retryOptions opts) \<and>
         PostMessage (wireMessage cx (tNow ckb) (genMessageId (idTime ckb) (idRandom ckb)) d)
           \<in> set (trace (runTask cx pg ckb (RetrySend d (retryOptions opts)) sb)) \<and>
         (genMessageId (idTime ckb) (idRandom ckb) = genMessageId (idTime ck) (idRandom ck)) =
           (idTime ckb = idTime ck \<and> idRandom ckb = idRandom ck) \<and>
         fst (onMessage rx rpg rck
                \<lparr>evOrigin = origin,
                 evData = Some (wireMessage cx (tNow ckb)
                                  (genMessageId (idTime ckb) (idRandom ckb)) d)\<rparr> r) = Handled \<and>
         dispatched (trace (snd (onMessage rx rpg rck
                \<lparr>evOrigin = origin,
                 evData = Some (wireMessage cx (tNow ckb)
                                  (genMessageId (idTime ckb) (idRandom ckb)) d)\<rparr> r))) =
           dispatched (trace r) @
             [wireMessage cx (tNow ckb) (genMessageId (idTime ckb) (idRandom ckb)) d]"
proof -
  let ?e = "wireMessage cx (tNow ckb) (genMessageId (idTime ckb) (idRandom ckb)) d"
  have f: "fst (sendPrimary cx ck d opts s) = Inr (Some (genMessageId (idTime ck) (idRandom ck)))"
  proof -
    have "posted (trace (snd (sendCrossDomainMessage cx ck d opts s))) \<noteq> posted (trace s)"
      using assms(1) by (simp add: sendCross_posted[OF assms(4)])
    then show ?thesis
      by (auto simp: sendCross_frame sendPrimary_trace split: if_splits)
  qed
  have "(tNow ck + retryDelay opts, RetrySend d (retryOptions opts))
      \<in> set (timers (snd (sendPrimary cx ck d opts s)))"
    using f assms(2,3) by (auto simp: sendPrimary_timers)
  then have a: "(tNow ck + retryDelay opts, RetrySend d (retryOptions opts))
      \<in> set (timers (snd (sendCrossDomainMessage cx ck d opts s)))"
    by (auto simp: sendCross_snd Let_def)
  have b: "skipDuplicateCheck (retryOptions opts) \<and> skipRateLimiting (retryOptions opts)"
    by (simp add: retryOptions_def)
  have "?e \<in> set (posted (trace (snd (sendCrossDomainMessage cx ckb d (retryOptions opts) sb))))"
    by (simp add: sendCross_posted[OF assms(4)] retry_accepted)
  then have c: "PostMessage ?e \<in> set (trace (runTask cx pg ckb (RetrySend d (retryOptions opts)) sb))"
    by (simp add: runTask_def posted_mem)
  have ra: "hasDebug rx \<longrightarrow> recordableAction ?e"
    using assms(9) by (simp add: recordableAction_def wireMessage_def)
  have h: "fst (onMessage rx rpg rck \<lparr>evOrigin = origin, evData = Some ?e\<rparr> r) = Handled"
    using assms(5) _ _ assms(6,7,8) ra
    by (rule onMessage_unseen_handled) (simp_all add: wireMessage_def)
  from a b c h show ?thesis
    by (simp add: genMessageId_inj onMessage_dispatched)
qed

text \<open>
  The premises of the theorem hold for a ping sent with \<^verbatim>\<open>retry\<close> at time 1000000 and
  retried at time 1000500: the peer frame dispatches both envelopes.
\<close>

theorem retry_posts_under_new_id_witness:
  "dispatched (trace (snd (onMessage peerFrame idlePage (clockAt 1000510 ''q'')
     \<lparr>evOrigin = ''https://mylab.pearson.com'',
      evData = Some (wireMessage exampleFrame 1000500 (genMessageId 1000500 ''b'') pingMessage)\<rparr>
     (snd (onMessage peerFrame idlePage (clockAt 1000010 ''p'')
        \<lparr>evOrigin = ''https://mylab.pearson.com'',
         evData = Some (wireMessage exampleFrame 1000000 (genMessageId 1000000 ''a'') pingMessage)\<rparr>
        (initialBus 0)))))) =
   [wireMessage exampleFrame 1000000 (genMessageId 1000000 ''a'') pingMessage,
    wireMessage exampleFrame 1000500 (genMessageId 1000500 ''b'') pingMessage] \<and>
   (1000500, RetrySend pingMessage (retryOptions retriedPing))
     \<in> set (timers (snd (sendCrossDomainMessage exampleFrame (clockAt 1000000 ''a'') pingMessage
                            retriedPing (initialBus 0)))) \<and>
   genMessageId 1000500 ''b'' \<noteq> genMessageId 1000000 ''a''"
proof -
  let ?e1 = "wireMessage exampleFrame 1000000 (genMessageId 1000000 ''a'') pingMessage"
  let ?ev1 = "\<lparr>evOrigin = ''https://mylab.pearson.com'', evData = Some ?e1\<rparr>"
  let ?r = "snd (onMessage peerFrame idlePage (clockAt 1000010 ''p'') ?ev1 (initialBus 0))"
  have h1: "accepted (clockAt 1000000 ''a'') pingMessage retriedPing (initialBus 0)"
    by (rule accepted_initially) simp
  have h2: "retry retriedPing" and h3: "0 < retryCount retriedPing"
    by (simp_all add: retriedPing_def defaultOptions_def)
  have h4: "hasDebug exampleFrame \<longrightarrow> recordableAction pingMessage"
    and h9: "hasDebug peerFrame \<longrightarrow> recordableAction pingMessage"
    by (simp_all add: plain_examples plain_recordable)
  have h5: "isPearsonOrigin (ctxOrigin peerFrame) ''https://mylab.pearson.com''"
    by (simp add: isPearsonOrigin_def startsWith_def)
  have re: "hasDebug peerFrame \<longrightarrow> recordableAction ?e1"
    using h9 by (simp add: recordableAction_def wireMessage_def)
  have first: "fst (onMessage peerFrame idlePage (clockAt 1000010 ''p'') ?ev1 (initialBus 0)) = Handled"
  proof (rule onMessage_unseen_handled[where m = "genMessageId 1000000 ''a''", OF h5 _ _ _ _ _ re])
    show "msgSource ?e1 = Some ''pearson_ai_solver''" by (simp add: wireMessage_def)
    show "messageId ?e1 = Some (genMessageId 1000000 ''a'')" by (simp add: wireMessage_def)
    show "genMessageId 1000000 ''a'' \<notin> set (receivedMessageIds (initialBus 0))" by simp
    show "genMessageId 1000000 ''a'' \<notin> set (sentMessageIds (initialBus 0))" by simp
    show "\<not> loopBlocked peerFrame ?e1"
      by (simp add: loopBlocked_iff wireMessage_def pingMessage_def emptyMessage_def)
  qed
  have me: "messageId ?e1 = Some (genMessageId 1000000 ''a'')" "evData ?ev1 = Some ?e1"
    "genMessageId 1000000 ''a'' \<noteq> []"
    by (simp_all add: wireMessage_def genMessageId_def)
  have rec: "receivedMessageIds ?r = [genMessageId 1000000 ''a'']"
    using onMessage_records_id[OF first me(2) me(1) me(3)] by (simp add: pushBounded_def)
  have pong: "handleMessage peerFrame idlePage (clockAt 1000010 ''p'') ?e1 t =
      snd (sendCrossDomainMessage peerFrame (clockAt 1000010 ''p'')
             (emptyMessage\<lparr>action := Some ''pong'', replyTo := Some (genMessageId 1000000 ''a''),
                hasQuestions := Some False\<rparr>)
             (defaultOptions\<lparr>skipDuplicateCheck := True, skipRateLimiting := True\<rparr>)
             (emit [Dispatch ?e1] t))" for t
    by (simp add: handleMessage_def Let_def wireMessage_def pingMessage_def emptyMessage_def
        idlePage_def)
  have sent: "sentMessageIds ?r = [genMessageId 1000010 ''p'']"
    unfolding onMessage_handled[OF first] me(2) option.sel pong
    by (subst ids_after_send)
       (simp add: accepted_def rateLimited_def duplicateSend_def emit_def pushBounded_def)
  have d1: "dispatched (trace ?r) = [?e1]"
    using first by (simp add: onMessage_dispatched)
  have h6: "genMessageId (idTime (clockAt 1000500 ''b'')) (idRandom (clockAt 1000500 ''b''))
      \<notin> set (receivedMessageIds ?r)"
    by (simp add: rec genMessageId_inj)
  have h7: "genMessageId (idTime (clockAt 1000500 ''b'')) (idRandom (clockAt 1000500 ''b''))
      \<notin> set (sentMessageIds ?r)"
    by (simp add: sent genMessageId_inj)
  have h8: "\<not> loopBlocked peerFrame (wireMessage exampleFrame (tNow (clockAt 1000500 ''b''))
      (genMessageId (idTime (clockAt 1000500 ''b'')) (idRandom (clockAt 1000500 ''b''))) pingMessage)"
    by (simp add: loopBlocked_iff wireMessage_def pingMessage_def emptyMessage_def)
  from retry_posts_under_new_id[OF h1 h2 h3 h4 h5 h6 h7 h8 h9, where rpg = idlePage
      and rck = "clockAt 1000510 ''q''" and pg = idlePage and sb = "initialBus 0"] d1
  show ?thesis by (simp add: retriedPing_def defaultOptions_def)
qed

section \<open>Further properties of the code\<close>

text \<open>
  The \<^verbatim>\<open>storage\<close> listener never reaches its \<^verbatim>\<open>switch\<close>: every path through it that
  takes in an entry ends at a call of \<^verbatim>\<open>debugLog\<close> (lines 1561, 1586, 1595), which is
  not in scope there, and the listener's \<^verbatim>\<open>catch\<close> ends the turn. Whatever arrives on
  the storage channel, nothing is dispatched and no timer is set.
\<close>

theorem storage_listener_never_dispatches:
  "fst (onStorage cx pg ck ev s) \<noteq> Handled \<and>
   trace (snd (onStorage cx pg ck ev s)) = trace s \<and>
   timers (snd (onStorage cx pg ck ev s)) = timers s"
  by (auto simp: onStorage_def Let_def fallbackDebugLog_def split: option.splits)

text \<open>
  For the same reason the send function that callers see raises a ReferenceError
  whenever the action is one of the three sent on the storage channel as well and the
  send passes the rate limiter and the content check; the message has been posted on
  the primary channel by then.
\<close>

theorem fallback_send_raises:
  assumes "usesFallback d" and "accepted ck d opts s"
  shows "fst (sendCrossDomainMessage cx ck d opts s) = Inl ReferenceError \<and>
         PostMessage (wireMessage cx (tNow ck) (genMessageId (idTime ck) (idRandom ck)) d)
           \<in> set (trace (snd (sendCrossDomainMessage cx ck d opts s)))"
proof -
  have p: "plainAction d"
    using assms(1)
    by (auto simp: usesFallback_def plainAction_def plainName_def fallbackActions_def
        objectPrototypeNames_def split: option.splits)
  then have q: "hasDebug cx \<longrightarrow> plainAction d" by simp
  have a: "fst (sendCrossDomainMessage cx ck d opts s) = Inl ReferenceError"
    using assms by (simp add: sendCross_quiet[OF q])
  have "fst (sendPrimary cx ck d opts s) = Inr (Some (genMessageId (idTime ck) (idRandom ck)))"
    using assms(2) by (simp add: sendPrimary_quiet[OF q])
  then show ?thesis using a by (simp add: sendCross_posts)
qed

theorem fallback_send_raises_witness:
  "fst (sendCrossDomainMessage exampleFrame (clockAt 1000000 ''a'') statusMessage defaultOptions
          (initialBus 0)) = Inl ReferenceError \<and>
   PostMessage (wireMessage exampleFrame 1000000 (genMessageId 1000000 ''a'') statusMessage)
     \<in> set (trace (snd (sendCrossDomainMessage exampleFrame (clockAt 1000000 ''a'') statusMessage
                           defaultOptions (initialBus 0))))"
proof -
  have h1: "usesFallback statusMessage"
    by (simp add: usesFallback_def statusMessage_def fallbackActions_def)
  have h2: "accepted (clockAt 1000000 ''a'') statusMessage defaultOptions (initialBus 0)"
    by (rule accepted_initially) simp
  from fallback_send_raises[OF h1 h2] show ?thesis by simp
qed



text \<open>
  Where the collector is loaded, a send whose action is a name that every object
  inherits and that passes the rate limiter and the content check raises a TypeError at
  the log of line 1389: its id has been recorded by then, but nothing is posted and no
  timer is set. An envelope with such an action that arrives from a trusted origin ends
  the listener's turn at the log of line 1141: it is not dispatched and its id is not
  recorded.
\<close>

theorem inherited_action_send_raises:
  assumes "hasDebug cx" and "action d = Some a" and "a \<in> set objectPrototypeNames"
      and "map_of (stSent (stats s)) a = None"
      and "accepted ck d opts s"
  shows "fst (sendCrossDomainMessage cx ck d opts s) = Inl TypeError \<and>
         trace (snd (sendCrossDomainMessage cx ck d opts s)) = trace s \<and>
         timers (snd (sendCrossDomainMessage cx ck d opts s)) = timers s \<and>
         sentMessageIds (snd (sendCrossDomainMessage cx ck d opts s)) =
           pushBounded (genMessageId (idTime ck) (idRandom ck)) (sentMessageIds s)"
proof -
  have ne: "a \<noteq> []" using assms(3) by (auto simp: objectPrototypeNames_def)
  have cl: "classify ''Sending cross-domain message:'' (ObjectData (Some a) None) = Some (Sent, a)"
    using ne by (simp add: classify_sending truthyStr_def)
  have "fst (debugLog cx ck ''Sending cross-domain message:'' (ObjectData (action d) None) s) =
      Some TypeError"
    using assms(1,2) by (simp add: debugLog_def cl record_inherited[OF assms(3,4)])
  then have f: "fst (sendPrimary cx ck d opts s) = Inl TypeError"
    using assms(5) by (simp add: sendPrimary_fst accepted_def)
  then have "fst (sendCrossDomainMessage cx ck d opts s) = Inl TypeError"
    by (simp add: sendCross_fst)
  moreover have "snd (sendCrossDomainMessage cx ck d opts s) = snd (sendPrimary cx ck d opts s)"
    using f by (simp add: sendCross_snd Let_def)
  ultimately show ?thesis
    using f assms(5) by (simp add: sendPrimary_trace sendPrimary_timers sendPrimary_ids)
qed

theorem inherited_action_send_raises_witness:
  "fst (sendCrossDomainMessage exampleFrame (clockAt 1000000 ''a'')
          (emptyMessage\<lparr>action := Some ''constructor''\<rparr>) retriedPing (initialBus 0)) =
     Inl TypeError \<and>
   timers (snd (sendCrossDomainMessage exampleFrame (clockAt 1000000 ''a'')
          (emptyMessage\<lparr>action := Some ''constructor''\<rparr>) retriedPing (initialBus 0))) =
     [(1000, InitialPing)]"
proof -
  have h1: "hasDebug exampleFrame" by (simp add: exampleFrame_def)
  have h2: "action (emptyMessage\<lparr>action := Some ''constructor''\<rparr>) = Some ''constructor''" by simp
  have h3: "''constructor'' \<in> set objectPrototypeNames" by (simp add: objectPrototypeNames_def)
  have h4: "map_of (stSent (stats (initialBus 0))) ''constructor'' = None"
    by (simp add: initialStats_def)
  have h5: "accepted (clockAt 1000000 ''a'') (emptyMessage\<lparr>action := Some ''constructor''\<rparr>)
      retriedPing (initialBus 0)" by (rule accepted_initially) simp
  from inherited_action_send_raises[OF h1 h2 h3 h4 h5] show ?thesis by simp
qed

theorem inherited_action_dropped_on_receive:
  assumes "hasDebug cx" and "isPearsonOrigin (ctxOrigin cx) (evOrigin ev)"
      and "evData ev = Some data" and "msgSource data = Some ''pearson_ai_solver''"
      and "action data = Some a" and "a \<in> set objectPrototypeNames"
      and "map_of (stReceived (stats s)) a = None"
  shows "fst (onMessage cx pg ck ev s) = Raised TypeError \<and>
         dispatched (trace (snd (onMessage cx pg ck ev s))) = dispatched (trace s) \<and>
         receivedMessageIds (snd (onMessage cx pg ck ev s)) = receivedMessageIds s"
proof -
  have ne: "a \<noteq> []" using assms(6) by (auto simp: objectPrototypeNames_def)
  have cl: "classify ''Received message:'' (ObjectData (Some a) None) = Some (Received, a)"
    using ne by (simp add: classify_received truthyStr_def)
  have ri: "recordInto t a dat (stReceived (stats s)) =
      (Some TypeError, stReceived (stats s), a = ''__proto__'')" for t dat
    using assms(6,7) by (simp add: recordInto_def)
  have "fst (receivedLog cx ck data s) = Some TypeError"
    using assms(1,5) by (simp add: receivedLog_def debugLog_def cl recordMessageStat_def ri)
  then have a: "fst (onMessage cx pg ck ev s) = Raised TypeError"
    by (simp add: onMessage_fst[OF assms(2-4)])
  then have "dispatched (trace (snd (onMessage cx pg ck ev s))) = dispatched (trace s)"
    by (simp add: onMessage_dispatched)
  moreover have "receivedMessageIds (snd (onMessage cx pg ck ev s)) = receivedMessageIds s"
    using \<open>fst (receivedLog cx ck data s) = Some TypeError\<close>
    by (simp add: onMessage_inside[OF assms(2-4)])
  ultimately show ?thesis using a by simp
qed

theorem inherited_action_dropped_on_receive_witness:
  "fst (onMessage exampleFrame busyPage (clockAt 1000100 ''r'')
          \<lparr>evOrigin = siblingOrigin,
           evData = Some (siblingEnvelope\<lparr>action := Some ''constructor''\<rparr>)\<rparr> (initialBus 0)) =
     Raised TypeError"
proof -
  have h1: "hasDebug exampleFrame" by (simp add: exampleFrame_def)
  have h2: "isPearsonOrigin (ctxOrigin exampleFrame)
      (evOrigin \<lparr>evOrigin = siblingOrigin,
                 evData = Some (siblingEnvelope\<lparr>action := Some ''constructor''\<rparr>)\<rparr>)"
    by (simp add: isPearsonOrigin_def startsWith_def siblingOrigin_def)
  have h3: "evData \<lparr>evOrigin = siblingOrigin,
      evData = Some (siblingEnvelope\<lparr>action := Some ''constructor''\<rparr>)\<rparr> =
      Some (siblingEnvelope\<lparr>action := Some ''constructor''\<rparr>)" by simp
  have h4: "msgSource (siblingEnvelope\<lparr>action := Some ''constructor''\<rparr>) = Some ''pearson_ai_solver''"
    by (simp add: siblingEnvelope_def)
  have h5: "action (siblingEnvelope\<lparr>action := Some ''constructor''\<rparr>) = Some ''constructor''" by simp
  have h6: "''constructor'' \<in> set objectPrototypeNames" by (simp add: objectPrototypeNames_def)
  have h7: "map_of (stReceived (stats (initialBus 0))) ''constructor'' = None"
    by (simp add: initialStats_def)
  from inherited_action_dropped_on_receive[OF h1 h2 h3 h4 h5 h6 h7] show ?thesis by simp
qed

text \<open>
  The assignment of line 1342 under the name \<^verbatim>\<open>__proto__\<close> stores nothing: sends of that
  action are never rate limited.
\<close>

theorem proto_action_never_rate_limited:
  assumes "messageThrottleTimestamps s ''__proto__'' = None"
      and "actionKeyOf d = ''__proto__''"
  shows "messageThrottleTimestamps (snd (sendCrossDomainMessage cx ck d opts s)) ''__proto__'' = None \<and>
         \<not> rateLimited optsb t (snd (sendCrossDomainMessage cx ck d opts s)) ''__proto__''"
proof -
  have "messageThrottleTimestamps (snd (sendCrossDomainMessage cx ck d opts s)) =
      messageThrottleTimestamps s"
    using assms(2) by (simp add: sendCross_frame sendPrimary_throttle setProp_def)
  then show ?thesis
    using assms(1)
    by (simp add: rateLimited_def getProp_def elapsedLess_def objectPrototypeNames_def)
qed

theorem proto_action_never_rate_limited_witness:
  "\<not> rateLimited defaultOptions 1000100
       (snd (sendCrossDomainMessage exampleFrame (clockAt 1000000 ''a'')
               (emptyMessage\<lparr>action := Some ''__proto__''\<rparr>) defaultOptions (initialBus 0)))
       ''__proto__''"
proof -
  have h1: "messageThrottleTimestamps (initialBus 0) ''__proto__'' = None" by simp
  have h2: "actionKeyOf (emptyMessage\<lparr>action := Some ''__proto__''\<rparr>) = ''__proto__''"
    by (simp add: actionKeyOf_def)
  from proto_action_never_rate_limited[OF h1 h2] show ?thesis by simp
qed

text \<open>
  Until \<^verbatim>\<open>resetDebugStats\<close> has run, the report and the flow analysis raise a TypeError,
  whatever sends have been recorded: the loop over the category \<^verbatim>\<open>localStorage\<close> meets
  the blank entries of lines 14-17.
\<close>

theorem report_raises_until_reset:
  "getMessageStatsReport now (recordedSends ts act initialStats) = Inl TypeError \<and>
   analyzeMessageFlow now (recordedSends ts act initialStats) = Inl TypeError"
proof -
  have bl: "getMessageStatsReport now c = Inl TypeError"
    if "stLocalStorage c = blankStorage" for c
  proof -
    have never: "reportCategory now p r (''localStorage'', blankStorage) \<noteq> Inr r'" for p r r'
      by (simp add: reportCategory_def blankStorage_def reportAction_def split: sum.splits)
    have "foldE (reportCategory now (protoCount c)) (categories c) r \<noteq> Inr r'" for r r'
      using never that by (simp add: categories_def split: sum.splits)
    then obtain e where e: "foldE (reportCategory now (protoCount c)) (categories c)
        \<lparr>summary = [], byAction = [], messageRate = [], loops = length (circularPaths c),
         lastCircularPath = (if circularPaths c = [] then None else Some (last (circularPaths c)))\<rparr> = Inl e"
      by (metis sum.exhaust)
    then have "e = TypeError" by (rule foldE_error[rotated]) (rule reportCategory_error)
    with e show ?thesis by (simp add: getMessageStatsReport_def)
  qed
  have keep: "stLocalStorage (snd (recordMessageStat t cat a dat c)) = stLocalStorage c" for t cat a dat c
    by (cases cat) (simp_all add: recordMessageStat_def split: prod.splits)
  have "stLocalStorage (foldl (\<lambda>c t. snd (recordMessageStat t Sent act dat c)) c ts) =
      stLocalStorage c" for c dat
    by (induction ts arbitrary: c) (simp_all add: keep)
  then have "stLocalStorage (recordedSends ts act initialStats) = blankStorage"
    by (simp add: recordedSends_def initialStats_def blankStorage_def)
  then have "getMessageStatsReport now (recordedSends ts act initialStats) = Inl TypeError"
    by (rule bl)
  then show ?thesis by (simp add: analyzeMessageFlow_def)
qed

text \<open>
  At most 50 time stamps are kept for an action (line 44), so its rate never exceeds
  50/5 = 10 and the test \<^verbatim>\<open>rate > 10\<close> of line 162 fails: however many sends of one
  action are recorded on reset statistics, the flow is not rated \<^verbatim>\<open>problematic\<close> unless
  more than 5 loops are on record.
\<close>

theorem sends_alone_never_problematic:
  assumes "length circ \<le> 5" and "act \<notin> set objectPrototypeNames"
  shows "ratingOf (analyzeMessageFlow now
                     ((recordedSends ts act (resetDebugStats initialStats))
                        \<lparr>circularPaths := circ\<rparr>)) \<noteq>
           Some ''problematic''"
proof -
  from recordedSends_shape_fresh[OF assms(2), of ts zeroStorage "[]"]
  show ?thesis
  proof
    assume "recordedSends ts act (statsWith [] zeroStorage []) = statsWith [] zeroStorage []"
    with assms(1) show ?thesis
      by (simp add: reset_initial analysis_rating_empty)
  next
    assume "\<exists>c ts' ds'. recordedSends ts act (statsWith [] zeroStorage []) =
        statsWith [(act, Entry c ts' ds')] zeroStorage [] \<and> length ts' \<le> 50"
    then obtain c ts' ds' where
      st: "recordedSends ts act (statsWith [] zeroStorage []) =
             statsWith [(act, Entry c ts' ds')] zeroStorage []"
      and l: "length ts' \<le> 50" by blast
    have "length (filter (\<lambda>t. now - t < 5000) ts') \<le> length ts'" by (rule length_filter_le)
    then have b: "length (filter (\<lambda>t. now - t < 5000) ts') \<le> 50" using l by (rule order_trans)
    from assms(1) show ?thesis
      unfolding reset_initial st statsWith_circ analysis_rating_bounded[OF b] by simp
  qed
qed

theorem sends_alone_never_problematic_witness:
  "ratingOf (analyzeMessageFlow 1001000
               ((recordedSends burst ''ping'' (resetDebugStats initialStats))
                  \<lparr>circularPaths := []\<rparr>)) \<noteq>
     Some ''problematic''"
proof -
  have h: "length ([] :: circularPath list) \<le> 5" by simp
  have p: "''ping'' \<notin> set objectPrototypeNames" by (simp add: objectPrototypeNames_def)
  from sends_alone_never_problematic[OF h p] show ?thesis .
qed

text \<open>
  A record made under the name \<^verbatim>\<open>__proto__\<close> raises a TypeError and leaves the property
  \<^verbatim>\<open>count\<close> on \<^verbatim>\<open>Object.prototype\<close>; from then on the report raises a TypeError, also
  on statistics that were reset.
\<close>

theorem record_under_proto_spoils_report:
  "fst (recordMessageStat t Sent ''__proto__'' dat (resetDebugStats initialStats)) =
     Some TypeError \<and>
   getMessageStatsReport now
     (snd (recordMessageStat t Sent ''__proto__'' dat (resetDebugStats initialStats))) =
     Inl TypeError \<and>
   getMessageStatsReport now
     (resetDebugStats
        (snd (recordMessageStat t Sent ''__proto__'' dat (resetDebugStats initialStats)))) =
     Inl TypeError"
proof -
  have i: "''__proto__'' \<in> set objectPrototypeNames" by (simp add: objectPrototypeNames_def)
  have n: "map_of (stSent (resetDebugStats initialStats)) ''__proto__'' = None"
    by (simp add: reset_initial statsWith_def)
  have r: "recordMessageStat t Sent ''__proto__'' dat (resetDebugStats initialStats) =
      (Some TypeError, (resetDebugStats initialStats)\<lparr>protoCount := True\<rparr>)"
    by (simp add: record_inherited[OF i n])
  have a: "getMessageStatsReport now ((resetDebugStats initialStats)\<lparr>protoCount := True\<rparr>) =
      Inl TypeError"
    by (rule report_polluted) (simp_all add: reset_initial statsWith_def zeroStorage_def)
  have b: "getMessageStatsReport now
      (resetDebugStats ((resetDebugStats initialStats)\<lparr>protoCount := True\<rparr>)) = Inl TypeError"
    by (rule report_polluted)
       (simp_all add: initialStats_def resetDebugStats_def resetEntries_def fullEntries_def)
  from a b show ?thesis by (simp add: r)
qed

text \<open>
  Two generated message ids are equal only if the clock reading and the random string
  that went into them are.
\<close>

theorem message_ids_differ_with_readings:
  "(genMessageId t r = genMessageId t' r') = (t = t' \<and> r = r')"
  by (rule genMessageId_inj)

end
